theory Spec2Isabelle
  imports Main "HOL-Library.Word"
begin

section \<open>Values of the run-time environment\<close>

text \<open>
  A \<open>Uint8Array\<close> is a list of 8-bit words. A JavaScript string is a \<open>string\<close>, a list
  of code units; the model keeps to code units below 256, which covers every string the
  signer builds from base64, base58 and decimal text and every binary string of
  \<open>btoa\<close>/\<open>atob\<close>.
\<close>

type_synonym byte = "8 word"
type_synonym bytes = "byte list"

datatype error =
    InvalidCharacterError     \<comment> \<open>\<open>atob\<close> on text that is not base64\<close>
  | NonBase58Character        \<comment> \<open>\<open>bs58.decode\<close>\<close>
  | BadSignatureSize          \<comment> \<open>\<open>nacl.sign.detached.verify\<close>\<close>
  | BadPublicKeySize          \<comment> \<open>\<open>nacl.sign.detached.verify\<close>\<close>
  | BadSecretKeySize          \<comment> \<open>\<open>nacl.sign.detached\<close>, \<open>nacl.sign.keyPair.fromSecretKey\<close>\<close>
  | VisaRequestFailed         \<comment> \<open>a rejected promise of the Visa client\<close>
  | TypeError                 \<comment> \<open>a method called on \<open>undefined\<close>\<close>

text \<open>Sequencing of steps that may throw: the first exception ends the computation.\<close>

definition and_then :: "error + 'a \<Rightarrow> ('a \<Rightarrow> error + 'b) \<Rightarrow> error + 'b" where
  "and_then r f = (case r of Inl e \<Rightarrow> Inl e | Inr v \<Rightarrow> f v)"

definition char_of_byte :: "byte \<Rightarrow> char" where
  "char_of_byte b = char_of (unat b)"

definition byte_of_char :: "char \<Rightarrow> byte" where
  "byte_of_char c = of_nat (of_char c)"

text \<open>\<open>String.fromCharCode(...data)\<close> and \<open>Array.from(s, char => char.charCodeAt(0))\<close>.\<close>

definition String_fromCharCode :: "bytes \<Rightarrow> string" where
  "String_fromCharCode data = map char_of_byte data"

definition charCodes :: "string \<Rightarrow> bytes" where
  "charCodes s = map byte_of_char s"

text \<open>\<open>s.replace(/c/g, r)\<close> for a one-character pattern: every occurrence is replaced.\<close>

definition replace_all :: "char \<Rightarrow> string \<Rightarrow> string \<Rightarrow> string" where
  "replace_all c r s = concat (map (\<lambda>d. if d = c then r else [d]) s)"

text \<open>
  Rendering of a number in a template literal. The numbers rendered here are integers
  far below \<open>10^21\<close> (seconds since the epoch), which JavaScript prints in plain decimal.
\<close>

definition digit_char :: "nat \<Rightarrow> char" where
  "digit_char d = ''0123456789'' ! d"

fun string_of_nat :: "nat \<Rightarrow> string" where
  "string_of_nat n =
     (if n < 10 then [digit_char n] else string_of_nat (n div 10) @ [digit_char (n mod 10)])"

declare string_of_nat.simps [simp del]

definition Number_toString :: "int \<Rightarrow> string" where
  "Number_toString i =
     (if i < 0 then CHR ''-'' # string_of_nat (nat (- i)) else string_of_nat (nat i))"

text \<open>\<open>new TextEncoder().encode(s)\<close>: UTF-8, one byte below 128 and two bytes from 128 to 255.\<close>

definition utf8_unit :: "char \<Rightarrow> bytes" where
  "utf8_unit c =
     (let n = (of_char c :: nat)
      in if n < 128 then [of_nat n] else [of_nat (192 + n div 64), of_nat (128 + n mod 64)])"

definition TextEncoder_encode :: "string \<Rightarrow> bytes" where
  "TextEncoder_encode s = concat (map utf8_unit s)"

subsection \<open>Base64: \<open>btoa\<close>, \<open>Buffer.toString('base64')\<close> and \<open>atob\<close>\<close>

definition b64chars :: string where
  "b64chars = ''ABCDEFGHIJKLMNOPQRSTUVWXYZabcdefghijklmnopqrstuvwxyz0123456789+/''"

definition b64_char :: "nat \<Rightarrow> char" where
  "b64_char i = b64chars ! i"

fun index_from :: "nat \<Rightarrow> char \<Rightarrow> string \<Rightarrow> nat option" where
  "index_from i c [] = None"
| "index_from i c (x # xs) = (if x = c then Some i else index_from (i + 1) c xs)"

definition b64_index :: "char \<Rightarrow> nat option" where
  "b64_index c = index_from 0 c b64chars"

text \<open>
  RFC 4648 base64 with padding: three bytes make four characters of six bits each, a
  last group of two bytes makes three characters and one \<open>=\<close>, of one byte two
  characters and \<open>==\<close>; the spare low bits of a last group are zero.
\<close>

fun base64_encode :: "bytes \<Rightarrow> string" where
  "base64_encode (a # b # c # rest) =
     [b64_char (unat a div 4),
      b64_char (unat a mod 4 * 16 + unat b div 16),
      b64_char (unat b mod 16 * 4 + unat c div 64),
      b64_char (unat c mod 64)] @ base64_encode rest"
| "base64_encode [a, b] =
     [b64_char (unat a div 4),
      b64_char (unat a mod 4 * 16 + unat b div 16),
      b64_char (unat b mod 16 * 4), CHR ''='']"
| "base64_encode [a] =
     [b64_char (unat a div 4), b64_char (unat a mod 4 * 16), CHR ''='', CHR ''='']"
| "base64_encode [] = []"

text \<open>\<open>btoa\<close> reads each code unit of a binary string as one byte.\<close>

definition btoa :: "string \<Rightarrow> string" where
  "btoa s = base64_encode (charCodes s)"

text \<open>\<open>Buffer.from(bytes).toString('base64')\<close>.\<close>

definition Buffer_toString_base64 :: "bytes \<Rightarrow> string" where
  "Buffer_toString_base64 data = base64_encode data"

text \<open>
  \<open>atob\<close> is the forgiving-base64 decode of the WHATWG Infra standard: ASCII whitespace
  is dropped; when the length is a multiple of four, one or two trailing \<open>=\<close> are
  dropped; a length of 1 modulo 4 or a character outside the alphabet throws; a last
  group of two or three characters gives one or two bytes, its spare bits discarded.
\<close>

definition is_ascii_whitespace :: "char \<Rightarrow> bool" where
  "is_ascii_whitespace c \<longleftrightarrow> (of_char c :: nat) \<in> {9, 10, 12, 13, 32}"

definition strip_padding :: "string \<Rightarrow> string" where
  "strip_padding d =
     (case rev d of
        x # y # r \<Rightarrow> if x = CHR ''='' then (if y = CHR ''='' then rev r else rev (y # r)) else d
      | [x] \<Rightarrow> if x = CHR ''='' then [] else d
      | [] \<Rightarrow> d)"

fun sextets :: "string \<Rightarrow> nat list option" where
  "sextets [] = Some []"
| "sextets (c # cs) =
     (case b64_index c of
        None \<Rightarrow> None
      | Some i \<Rightarrow> (case sextets cs of None \<Rightarrow> None | Some is \<Rightarrow> Some (i # is)))"

fun decode_groups :: "nat list \<Rightarrow> bytes" where
  "decode_groups (s1 # s2 # s3 # s4 # rest) =
     [of_nat (s1 * 4 + s2 div 16), of_nat (s2 mod 16 * 16 + s3 div 4),
      of_nat (s3 mod 4 * 64 + s4)] @ decode_groups rest"
| "decode_groups [s1, s2, s3] =
     [of_nat (s1 * 4 + s2 div 16), of_nat (s2 mod 16 * 16 + s3 div 4)]"
| "decode_groups [s1, s2] = [of_nat (s1 * 4 + s2 div 16)]"
| "decode_groups [s1] = []"
| "decode_groups [] = []"

definition atob :: "string \<Rightarrow> error + string" where
  "atob input =
     (let d = filter (\<lambda>c. \<not> is_ascii_whitespace c) input;
          d = (if length d mod 4 = 0 then strip_padding d else d)
      in if length d mod 4 = 1 then Inl InvalidCharacterError
         else (case sextets d of
                 None \<Rightarrow> Inl InvalidCharacterError
               | Some is \<Rightarrow> Inr (String_fromCharCode (decode_groups is))))"

subsection \<open>Base58: the \<open>bs58\<close> package\<close>

text \<open>
  \<open>bs58.encode\<close> writes one \<open>1\<close> for every leading zero byte and then the remaining
  bytes, read as one big-endian number, in base 58 over the Bitcoin alphabet.
  \<open>bs58.decode\<close> is the inverse and throws on a character outside the alphabet.
\<close>

definition b58chars :: string where
  "b58chars = ''123456789ABCDEFGHJKLMNPQRSTUVWXYZabcdefghijkmnopqrstuvwxyz''"

fun base58_digits :: "nat \<Rightarrow> nat list" where
  "base58_digits n = (if n = 0 then [] else base58_digits (n div 58) @ [n mod 58])"

declare base58_digits.simps [simp del]

fun base256_bytes :: "nat \<Rightarrow> bytes" where
  "base256_bytes n = (if n = 0 then [] else base256_bytes (n div 256) @ [of_nat (n mod 256)])"

declare base256_bytes.simps [simp del]

definition nat_of_bytes :: "bytes \<Rightarrow> nat" where
  "nat_of_bytes bs = foldl (\<lambda>acc b. acc * 256 + unat b) 0 bs"

definition nat_of_base58 :: "nat list \<Rightarrow> nat" where
  "nat_of_base58 ds = foldl (\<lambda>acc d. acc * 58 + d) 0 ds"

definition bs58_encode :: "bytes \<Rightarrow> string" where
  "bs58_encode source =
     (let zeroes = length (takeWhile (\<lambda>b. b = 0) source);
          n = nat_of_bytes (dropWhile (\<lambda>b. b = 0) source)
      in replicate zeroes (CHR ''1'') @ map (\<lambda>d. b58chars ! d) (base58_digits n))"

fun base58_indices :: "string \<Rightarrow> nat list option" where
  "base58_indices [] = Some []"
| "base58_indices (c # cs) =
     (case index_from 0 c b58chars of
        None \<Rightarrow> None
      | Some i \<Rightarrow> (case base58_indices cs of None \<Rightarrow> None | Some is \<Rightarrow> Some (i # is)))"

definition bs58_decode :: "string \<Rightarrow> error + bytes" where
  "bs58_decode source =
     (case base58_indices source of
        None \<Rightarrow> Inl NonBase58Character
      | Some ds \<Rightarrow>
          Inr (replicate (length (takeWhile (\<lambda>d. d = 0) ds)) 0
               @ base256_bytes (nat_of_base58 ds)))"

subsection \<open>Ed25519: the \<open>tweetnacl\<close> package\<close>

text \<open>
  The curve arithmetic is a parameter of the model: \<open>ed_sign msg secretKey\<close> is the
  detached signature and \<open>ed_open msg sig publicKey\<close> says whether it opens. The size
  checks that TweetNaCl's wrappers make before calling them are written out.
\<close>

record ed25519 =
  ed_sign :: "bytes \<Rightarrow> bytes \<Rightarrow> bytes"
  ed_open :: "bytes \<Rightarrow> bytes \<Rightarrow> bytes \<Rightarrow> bool"

record SignKeyPair =
  kp_publicKey :: bytes
  kp_secretKey :: bytes

definition nacl_sign_detached :: "ed25519 \<Rightarrow> bytes \<Rightarrow> bytes \<Rightarrow> error + bytes" where
  "nacl_sign_detached N msg secretKey =
     (if length secretKey \<noteq> 64 then Inl BadSecretKeySize else Inr (ed_sign N msg secretKey))"

definition nacl_sign_detached_verify ::
  "ed25519 \<Rightarrow> bytes \<Rightarrow> bytes \<Rightarrow> bytes \<Rightarrow> error + bool" where
  "nacl_sign_detached_verify N msg sig publicKey =
     (if length sig \<noteq> 64 then Inl BadSignatureSize
      else if length publicKey \<noteq> 32 then Inl BadPublicKeySize
      else Inr (ed_open N msg sig publicKey))"

definition nacl_sign_keyPair_fromSecretKey :: "bytes \<Rightarrow> error + SignKeyPair" where
  "nacl_sign_keyPair_fromSecretKey secretKey =
     (if length secretKey \<noteq> 64 then Inl BadSecretKeySize
      else Inr \<lparr>kp_publicKey = drop 32 secretKey, kp_secretKey = secretKey\<rparr>)"

section \<open>Shared types: \<open>shared/types.ts\<close> (\<open>src/unnamed/part_003\<close>)\<close>

record TAPSignature =
  Signature_Input :: string
  Signature :: string

record TAPRequestData =
  req_authority :: string
  req_path :: string
  req_method :: string
  req_keyId :: string
  req_nonce :: string
  req_tag :: string

section \<open>The signer: \<open>tap-agent/src/crypto/tapSigner.ts\<close>\<close>

record TAPSigner =
  signer_keyPair :: SignKeyPair
  signer_keyId :: string

text \<open>An optional string argument is truthy when it is given and not empty.\<close>

definition truthy :: "string option \<Rightarrow> bool" where
  "truthy a = (case a of None \<Rightarrow> False | Some v \<Rightarrow> v \<noteq> [])"

definition generateKeyId :: "SignKeyPair \<Rightarrow> string" where
  "generateKeyId keyPair = bs58_encode (kp_publicKey keyPair)"

text \<open>
  The constructor. \<open>fresh\<close> is the key pair that \<open>nacl.sign.keyPair()\<close> draws when
  no private key is given.
\<close>

definition TAPSigner_constructor ::
  "SignKeyPair \<Rightarrow> string option \<Rightarrow> string option \<Rightarrow> error + TAPSigner" where
  "TAPSigner_constructor fresh privateKeyBase58 keyId =
     (if truthy privateKeyBase58 then
        and_then (bs58_decode (the privateKeyBase58)) (\<lambda>privateKey.
        and_then (nacl_sign_keyPair_fromSecretKey privateKey) (\<lambda>keyPair.
          Inr \<lparr>signer_keyPair = keyPair,
               signer_keyId = (if truthy keyId then the keyId else generateKeyId keyPair)\<rparr>))
      else Inr \<lparr>signer_keyPair = fresh, signer_keyId = generateKeyId fresh\<rparr>)"

definition getPublicKey :: "TAPSigner \<Rightarrow> string" where
  "getPublicKey S = bs58_encode (kp_publicKey (signer_keyPair S))"

definition getKeyId :: "TAPSigner \<Rightarrow> string" where
  "getKeyId S = signer_keyId S"

definition createSignatureBase ::
  "string \<Rightarrow> string \<Rightarrow> int \<Rightarrow> string \<Rightarrow> int \<Rightarrow> string \<Rightarrow> string \<Rightarrow> string" where
  "createSignatureBase authority path created keyid expires nonce tag =
     ''\"@authority\": '' @ authority @ [CHR 0x0A] @
     ''\"@path\": '' @ path @ [CHR 0x0A] @
     ''\"@signature-params\": sig2=(\"@authority\" \"@path\");'' @
     ''created='' @ Number_toString created @ '';'' @
     ''keyid=\"'' @ keyid @ ''\";'' @
     ''expires='' @ Number_toString expires @ '';'' @
     ''nonce=\"'' @ nonce @ ''\";'' @
     ''tag=\"'' @ tag @ ''\"''"

definition base64UrlEncode :: "bytes \<Rightarrow> string" where
  "base64UrlEncode data =
     replace_all (CHR ''='') []
       (replace_all (CHR ''/'') ''_''
         (replace_all (CHR ''+'') ''-'' (btoa (String_fromCharCode data))))"

definition base64UrlDecode :: "string \<Rightarrow> error + bytes" where
  "base64UrlDecode data =
     (let base64 = replace_all (CHR ''_'') ''/'' (replace_all (CHR ''-'') ''+'' data);
          padding = replicate ((4 - length base64 mod 4) mod 4) (CHR ''='')
      in and_then (atob (base64 @ padding)) (\<lambda>binaryString. Inr (charCodes binaryString)))"

text \<open>The \<open>Signature-Input\<close> template of \<open>signTAPRequest\<close>.\<close>

definition signatureInput_of :: "int \<Rightarrow> string \<Rightarrow> int \<Rightarrow> string \<Rightarrow> string \<Rightarrow> string" where
  "signatureInput_of created keyId expires nonce tag =
     ''sig2=(\"@authority\" \"@path\");created='' @ Number_toString created @
     '';keyid=\"'' @ keyId @ ''\";expires='' @ Number_toString expires @
     '';nonce=\"'' @ nonce @ ''\";tag=\"'' @ tag @ ''\"''"

text \<open>\<open>now\<close> is the reading of \<open>Date.now()\<close>, in milliseconds.\<close>

definition signTAPRequest ::
  "ed25519 \<Rightarrow> TAPSigner \<Rightarrow> int \<Rightarrow> TAPRequestData \<Rightarrow> error + TAPSignature" where
  "signTAPRequest N S now requestData =
     (let created = now div 1000;
          expires = created + 480;
          signatureInput =
            signatureInput_of created (signer_keyId S) expires
              (req_nonce requestData) (req_tag requestData);
          signatureBase =
            createSignatureBase (req_authority requestData) (req_path requestData) created
              (signer_keyId S) expires (req_nonce requestData) (req_tag requestData)
      in and_then
           (nacl_sign_detached N (TextEncoder_encode signatureBase)
              (kp_secretKey (signer_keyPair S)))
           (\<lambda>signature.
              let signatureB64 = base64UrlEncode signature
              in Inr \<lparr>Signature_Input = signatureInput,
                      Signature = ''sig2=:'' @ signatureB64 @ '':''\<rparr>))"

text \<open>
  \<open>verifySignature\<close>: the whole body is inside \<open>try\<close>, and the \<open>catch\<close> returns
  \<open>false\<close>. A missing \<open>publicKey\<close> argument is \<open>None\<close>.
\<close>

definition verifySignature ::
  "ed25519 \<Rightarrow> TAPSigner \<Rightarrow> string \<Rightarrow> string \<Rightarrow> bytes option \<Rightarrow> error + bool" where
  "verifySignature N S signatureBase signature publicKey =
     (case and_then (base64UrlDecode signature) (\<lambda>sigBytes.
             let pubKey = (case publicKey of
                             Some k \<Rightarrow> k
                           | None \<Rightarrow> kp_publicKey (signer_keyPair S))
             in nacl_sign_detached_verify N (TextEncoder_encode signatureBase) sigBytes pubKey)
      of Inl err \<Rightarrow> Inr False
       | Inr ok \<Rightarrow> Inr ok)"

section \<open>The routes: \<open>tap-agent/src/routes/tapRoutes.ts\<close>\<close>

text \<open>The word characters of a regular expression: \<open>[A-Za-z0-9_]\<close>.\<close>

definition is_word_char :: "char \<Rightarrow> bool" where
  "is_word_char c =
     (let n = (of_char c :: nat)
      in (48 \<le> n \<and> n \<le> 57) \<or> (65 \<le> n \<and> n \<le> 90) \<or> n = 95 \<or> (97 \<le> n \<and> n \<le> 122))"

text \<open>
  \<open>signatureInput.match(/(\w+)=([^;]+)/g)\<close>: all matches from left to right. A match
  starts at a run of word characters that runs up to a \<open>=\<close> followed by at least one
  character other than \<open>;\<close>, and takes everything up to the next \<open>;\<close> or the end; the
  search goes on from there. Where no match starts, the search moves one character on.
\<close>

function match_all :: "string \<Rightarrow> string list" where
  "match_all [] = []"
| "match_all (c # cs) =
     (case dropWhile is_word_char (c # cs) of
        e # v # r \<Rightarrow>
          if is_word_char c \<and> e = CHR ''='' \<and> v \<noteq> CHR '';''
          then (takeWhile is_word_char (c # cs) @ [e] @ takeWhile (\<lambda>x. x \<noteq> CHR '';'') (v # r))
               # match_all (dropWhile (\<lambda>x. x \<noteq> CHR '';'') (v # r))
          else match_all cs
      | _ \<Rightarrow> match_all cs)"
  by pat_completeness auto

termination match_all
proof (relation "measure length")
  show "wf (measure length)" by simp
next
  fix c :: char and cs e vr v r
  assume a: "dropWhile is_word_char (c # cs) = e # vr" "vr = v # r"
  have "length (dropWhile is_word_char (c # cs)) \<le> length (c # cs)"
    by (rule length_dropWhile_le)
  with a have "length (v # r) < length (c # cs)" by simp
  moreover have "length (dropWhile (\<lambda>x. x \<noteq> CHR '';'') (v # r)) \<le> length (v # r)"
    by (rule length_dropWhile_le)
  ultimately show "(dropWhile (\<lambda>x. x \<noteq> CHR '';'') (v # r), c # cs) \<in> measure length"
    by simp
qed simp_all

declare match_all.simps [simp del]

text \<open>\<open>s.split(c)\<close> for a one-character separator.\<close>

fun split_on :: "char \<Rightarrow> string \<Rightarrow> string list" where
  "split_on c [] = [[]]"
| "split_on c (x # xs) =
     (if x = c then [] # split_on c xs
      else (case split_on c xs of h # t \<Rightarrow> (x # h) # t | [] \<Rightarrow> [[x]]))"

text \<open>
  The body of the \<open>forEach\<close>: \<open>[key, value] = match.split('=')\<close>, then
  \<open>params[key] = value.replace(/"/g, '')\<close>. With no second piece \<open>value\<close> is
  \<open>undefined\<close> and \<open>replace\<close> throws.
\<close>

definition store_param ::
  "(string \<rightharpoonup> string) \<Rightarrow> string \<Rightarrow> error + (string \<rightharpoonup> string)" where
  "store_param params m =
     (case split_on (CHR ''='') m of
        key # value # _ \<Rightarrow> Inr (params(key \<mapsto> replace_all (CHR 0x22) [] value))
      | _ \<Rightarrow> Inl TypeError)"

fun store_params ::
  "(string \<rightharpoonup> string) \<Rightarrow> string list \<Rightarrow> error + (string \<rightharpoonup> string)" where
  "store_params params [] = Inr params"
| "store_params params (m # ms) =
     (case store_param params m of Inl e \<Rightarrow> Inl e | Inr params' \<Rightarrow> store_params params' ms)"

definition parseSignatureInput :: "string \<Rightarrow> error + (string \<rightharpoonup> string)" where
  "parseSignatureInput signatureInput = store_params Map.empty (match_all signatureInput)"

text \<open>A property read in a template literal: a missing one prints as \<open>undefined\<close>.\<close>

definition read_prop :: "(string \<rightharpoonup> string) \<Rightarrow> string \<Rightarrow> string" where
  "read_prop params k = (case params k of None \<Rightarrow> ''undefined'' | Some v \<Rightarrow> v)"

definition routes_createSignatureBase ::
  "string \<Rightarrow> string \<Rightarrow> (string \<rightharpoonup> string) \<Rightarrow> string" where
  "routes_createSignatureBase authority path params =
     ''\"@authority\": '' @ authority @ [CHR 0x0A] @
     ''\"@path\": '' @ path @ [CHR 0x0A] @
     ''\"@signature-params\": sig2=(\"@authority\" \"@path\");'' @
     ''created='' @ read_prop params ''created'' @ '';'' @
     ''keyid=\"'' @ read_prop params ''keyid'' @ ''\";'' @
     ''expires='' @ read_prop params ''expires'' @ '';'' @
     ''nonce=\"'' @ read_prop params ''nonce'' @ ''\";'' @
     ''tag=\"'' @ read_prop params ''tag'' @ ''\"''"

text \<open>\<open>signature.replace(/^sig2=:/, '').replace(/:$/, '')\<close>.\<close>

definition strip_wrapper :: "string \<Rightarrow> string" where
  "strip_wrapper signature =
     (let s = (if take 6 signature = ''sig2=:'' then drop 6 signature else signature)
      in if s \<noteq> [] \<and> last s = CHR '':'' then butlast s else s)"

subsection \<open>The \<open>/verify\<close> handler\<close>

text \<open>
  A field of the parsed JSON body, as far as the handler looks at it: a string, or a
  value of another kind (a missing field, \<open>null\<close>, a boolean, a number, an array, an
  object). Of a value of another kind the model keeps whether it is truthy and what its
  conversion to a string gives; the conversion throws for an object whose own
  \<open>toString\<close> and \<open>valueOf\<close> are not callable.
\<close>

datatype jsvalue = JString string | JOther bool "error + string"

definition js_undefined :: jsvalue where
  "js_undefined = JOther False (Inr ''undefined'')"

text \<open>\<open>!v\<close> is \<open>\<not> js_truthy v\<close>: the empty string is falsy.\<close>

definition js_truthy :: "jsvalue \<Rightarrow> bool" where
  "js_truthy v = (case v of JString s \<Rightarrow> s \<noteq> [] | JOther t r \<Rightarrow> t)"

text \<open>The value in a template literal.\<close>

definition js_toString :: "jsvalue \<Rightarrow> error + string" where
  "js_toString v = (case v of JString s \<Rightarrow> Inr s | JOther t r \<Rightarrow> r)"

text \<open>
  The receiver of \<open>.match\<close> and \<open>.replace\<close>: on a value that is not a string these
  are not functions, and the call throws.
\<close>

definition string_receiver :: "jsvalue \<Rightarrow> error + string" where
  "string_receiver v = (case v of JString s \<Rightarrow> Inr s | JOther t r \<Rightarrow> Inl TypeError)"

record VerifyBody =
  body_signatureInput :: jsvalue
  body_signature :: jsvalue
  body_authority :: jsvalue
  body_path :: jsvalue
  body_publicKey :: jsvalue

record VerifyResult =
  res_valid :: bool
  res_keyId :: "string option"
  res_timestamp :: "string option"
  res_expires :: "string option"

datatype response =
    Status400               \<comment> \<open>\<open>Missing required verification fields\<close>\<close>
  | Status500               \<comment> \<open>\<open>Failed to verify signature\<close>\<close>
  | Status200 VerifyResult

text \<open>
  The handler of \<open>POST /verify\<close>. \<open>Buffer_from\<close> is Node's
  \<open>Buffer.from(value, 'base64')\<close>, a parameter of the model like the curve
  arithmetic. Every exception thrown after the check of the fields is caught by the
  handler's \<open>catch\<close> and answered with status 500.
\<close>

definition verify_route ::
  "ed25519 \<Rightarrow> (jsvalue \<Rightarrow> error + bytes) \<Rightarrow> TAPSigner \<Rightarrow> VerifyBody \<Rightarrow> response" where
  "verify_route N Buffer_from tapSigner body =
     (let signatureInput = body_signatureInput body;
          signature = body_signature body;
          authority = body_authority body;
          path = body_path body;
          publicKey = body_publicKey body
      in if \<not> js_truthy signatureInput \<or> \<not> js_truthy signature
            \<or> \<not> js_truthy authority \<or> \<not> js_truthy path
         then Status400
         else
           (case
              and_then (string_receiver signatureInput) (\<lambda>s.
              and_then (parseSignatureInput s) (\<lambda>params.
              and_then (js_toString authority) (\<lambda>a.
              and_then (js_toString path) (\<lambda>p.
                let signatureBase = routes_createSignatureBase a p params
                in
              and_then (if js_truthy publicKey then Buffer_from publicKey
                        else Buffer_from (JString (getPublicKey tapSigner))) (\<lambda>pubKeyBytes.
              and_then (string_receiver signature) (\<lambda>sig.
              and_then (verifySignature N tapSigner signatureBase (strip_wrapper sig)
                          (Some pubKeyBytes)) (\<lambda>isValid.
                Inr \<lparr>res_valid = isValid, res_keyId = params ''keyid'',
                     res_timestamp = params ''created'',
                     res_expires = params ''expires''\<rparr>)))))))
            of Inl err \<Rightarrow> Status500
             | Inr result \<Rightarrow> Status200 result))"

section \<open>The key registry: \<open>visa/visaKeyRegistry.ts\<close> (\<open>src/unnamed/part_005\<close>)\<close>

record JWK =
  jwk_kty :: string
  jwk_kid :: string
  jwk_use :: string
  jwk_alg :: string
  jwk_x :: "string option"
  jwk_n :: "string option"
  jwk_e :: "string option"
  jwk_crv :: "string option"

text \<open>
  A JavaScript \<open>Map\<close> keeps its entries in the order the keys were first inserted:
  \<open>set\<close> on a key already present replaces the value in place, on a new key it
  appends.
\<close>

fun Map_set :: "'k \<Rightarrow> 'v \<Rightarrow> ('k \<times> 'v) list \<Rightarrow> ('k \<times> 'v) list" where
  "Map_set k v [] = [(k, v)]"
| "Map_set k v ((k', v') # m) =
     (if k' = k then (k, v) # m else (k', v') # Map_set k v m)"

definition Map_values :: "('k \<times> 'v) list \<Rightarrow> 'v list" where
  "Map_values m = map snd m"

record VisaKeyRegistry =
  reg_tapSigner :: TAPSigner
  registeredKeys :: "(string \<times> JWK) list"

definition VisaKeyRegistry_constructor :: "TAPSigner \<Rightarrow> VisaKeyRegistry" where
  "VisaKeyRegistry_constructor tapSigner =
     \<lparr>reg_tapSigner = tapSigner, registeredKeys = []\<rparr>"

definition base64urlEncode :: "bytes \<Rightarrow> string" where
  "base64urlEncode data =
     replace_all (CHR ''='') []
       (replace_all (CHR ''/'') ''_''
         (replace_all (CHR ''+'') ''-'' (Buffer_toString_base64 data)))"

definition ed25519ToJWK :: "string \<Rightarrow> string \<Rightarrow> error + JWK" where
  "ed25519ToJWK publicKeyBase58 keyId =
     and_then (bs58_decode publicKeyBase58) (\<lambda>publicKeyBytes.
       let x = base64urlEncode publicKeyBytes
       in Inr \<lparr>jwk_kty = ''OKP'', jwk_kid = keyId, jwk_use = ''sig'', jwk_alg = ''EdDSA'',
               jwk_x = Some x, jwk_n = None, jwk_e = None, jwk_crv = Some ''Ed25519''\<rparr>)"

text \<open>\<open>getJWKS\<close> returns the keys and leaves the current key stored in the registry.\<close>

definition getJWKS :: "VisaKeyRegistry \<Rightarrow> error + (JWK list \<times> VisaKeyRegistry)" where
  "getJWKS R =
     (let publicKey = getPublicKey (reg_tapSigner R);
          keyId = getKeyId (reg_tapSigner R)
      in and_then (ed25519ToJWK publicKey keyId) (\<lambda>currentJWK.
           let R' = R\<lparr>registeredKeys := Map_set keyId currentJWK (registeredKeys R)\<rparr>
           in Inr (Map_values (registeredKeys R'), R')))"

text \<open>
  \<open>rotateKey\<close>. \<open>visa\<close> is the outcome of \<open>visaClient.updateAgentKey\<close>: a rejected
  promise throws out of \<open>rotateKey\<close> before the registry is touched.
\<close>

definition rotateKey ::
  "(error + 'r) \<Rightarrow> VisaKeyRegistry \<Rightarrow> TAPSigner \<Rightarrow> error + ('r \<times> VisaKeyRegistry)" where
  "rotateKey visa R newSigner =
     (let newPublicKey = getPublicKey newSigner;
          newKeyId = getKeyId newSigner
      in and_then (ed25519ToJWK newPublicKey newKeyId) (\<lambda>newJWK.
         and_then visa (\<lambda>result.
           Inr (result,
                R\<lparr>registeredKeys := Map_set newKeyId newJWK (registeredKeys R),
                  reg_tapSigner := newSigner\<rparr>))))"

section \<open>The specification's own terms\<close>

text \<open>
  The canonical signature base as the specification writes it: three lines, joined by
  single newlines.
\<close>

definition canonical_lines ::
  "string \<Rightarrow> string \<Rightarrow> int \<Rightarrow> string \<Rightarrow> int \<Rightarrow> string \<Rightarrow> string \<Rightarrow> string list" where
  "canonical_lines authority path created keyId expires nonce tag =
     [''\"@authority\": '' @ authority,
      ''\"@path\": '' @ path,
      ''\"@signature-params\": sig2=(\"@authority\" \"@path\");created=''
        @ Number_toString created @ '';keyid=\"'' @ keyId @ ''\";expires=''
        @ Number_toString expires @ '';nonce=\"'' @ nonce @ ''\";tag=\"'' @ tag @ ''\"'']"

fun join_lines :: "string list \<Rightarrow> string" where
  "join_lines [] = []"
| "join_lines [l] = l"
| "join_lines (l # ls) = l @ CHR 0x0A # join_lines ls"

text \<open>
  Base64 without padding over a given 64-character alphabet (RFC 4648, sections 3.2, 4
  and 5); base64url is the alphabet ending in \<open>-\<close> and \<open>_\<close>.
\<close>

fun rfc4648_nopad :: "string \<Rightarrow> bytes \<Rightarrow> string" where
  "rfc4648_nopad al (a # b # c # rest) =
     [al ! (unat a div 4),
      al ! (unat a mod 4 * 16 + unat b div 16),
      al ! (unat b mod 16 * 4 + unat c div 64),
      al ! (unat c mod 64)] @ rfc4648_nopad al rest"
| "rfc4648_nopad al [a, b] =
     [al ! (unat a div 4),
      al ! (unat a mod 4 * 16 + unat b div 16),
      al ! (unat b mod 16 * 4)]"
| "rfc4648_nopad al [a] = [al ! (unat a div 4), al ! (unat a mod 4 * 16)]"
| "rfc4648_nopad al [] = []"

definition b64url_chars :: string where
  "b64url_chars = ''ABCDEFGHIJKLMNOPQRSTUVWXYZabcdefghijklmnopqrstuvwxyz0123456789-_''"

definition base64url_nopad :: "bytes \<Rightarrow> string" where
  "base64url_nopad data = rfc4648_nopad b64url_chars data"

section \<open>Auxiliary definitions\<close>

text \<open>
  Definitions used in the statements and proofs below: the character substitutions
  between base64 and base64url, a \<open>Signature-Input\<close> string as a list of
  parameters, and a small stand-in for Ed25519 with concrete keys for the examples.
\<close>

definition url_char :: "char \<Rightarrow> char" where
  "url_char c = (if c = CHR ''+'' then CHR ''-'' else if c = CHR ''/'' then CHR ''_'' else c)"

definition unurl_char :: "char \<Rightarrow> char" where
  "unurl_char c = (if c = CHR ''-'' then CHR ''+'' else if c = CHR ''_'' then CHR ''/'' else c)"

definition toy_ed25519 :: ed25519 where
  "toy_ed25519 =
     \<lparr>ed_sign = (\<lambda>msg secretKey. take 64 (drop 32 secretKey @ msg @ replicate 64 0)),
      ed_open = (\<lambda>msg sig publicKey. sig = take 64 (publicKey @ msg @ replicate 64 0))\<rparr>"

fun render_params :: "(string \<times> string) list \<Rightarrow> string" where
  "render_params [] = []"
| "render_params [(k, v)] = k @ CHR ''='' # v"
| "render_params ((k, v) # kvs) = k @ CHR ''='' # v @ CHR '';'' # render_params kvs"

definition param_value :: "string \<Rightarrow> string" where
  "param_value v = filter (\<lambda>x. x \<noteq> CHR 0x22) (takeWhile (\<lambda>x. x \<noteq> CHR ''='') v)"

definition wf_param :: "string \<times> string \<Rightarrow> bool" where
  "wf_param kv \<longleftrightarrow> fst kv \<noteq> [] \<and> list_all is_word_char (fst kv)
      \<and> snd kv \<noteq> [] \<and> CHR '';'' \<notin> set (snd kv)"

fun store_all :: "(string \<rightharpoonup> string) \<Rightarrow> (string \<times> string) list \<Rightarrow> (string \<rightharpoonup> string)" where
  "store_all params [] = params"
| "store_all params ((k, v) # kvs) = store_all (params(k \<mapsto> param_value v)) kvs"

definition signature_params :: "int \<Rightarrow> string \<Rightarrow> int \<Rightarrow> string \<Rightarrow> string \<Rightarrow> (string \<times> string) list" where
  "signature_params created keyId expires nonce tag =
     [(''sig2'', ''(\"@authority\" \"@path\")''),
      (''created'', Number_toString created),
      (''keyid'', CHR 0x22 # keyId @ [CHR 0x22]),
      (''expires'', Number_toString expires),
      (''nonce'', CHR 0x22 # nonce @ [CHR 0x22]),
      (''tag'', CHR 0x22 # tag @ [CHR 0x22])]"

text \<open>
  The round trip of signing and verifying with the base rebuilt from the fields of the
  request, its \<open>keyId\<close> among them.
\<close>

definition sign_then_verify ::
  "ed25519 \<Rightarrow> TAPSigner \<Rightarrow> int \<Rightarrow> TAPRequestData \<Rightarrow> error + bool" where
  "sign_then_verify N S now req =
     and_then (signTAPRequest N S now req) (\<lambda>env.
       verifySignature N S
         (createSignatureBase (req_authority req) (req_path req) (now div 1000)
            (req_keyId req) (now div 1000 + 480) (req_nonce req) (req_tag req))
         (strip_wrapper (Signature env)) (Some (kp_publicKey (signer_keyPair S))))"

text \<open>
  A second stand-in for Ed25519, whose signatures depend on the whole message through
  its length.
\<close>

definition length_ed25519 :: ed25519 where
  "length_ed25519 =
     \<lparr>ed_sign = (\<lambda>msg secretKey.
        take 32 (drop 32 secretKey @ replicate 32 0) @ replicate 32 (of_nat (length msg))),
      ed_open = (\<lambda>msg sig publicKey.
        sig = take 32 (publicKey @ replicate 32 0) @ replicate 32 (of_nat (length msg)))\<rparr>"

text \<open>Concrete values for the examples: a key pair, a signer and a request.\<close>

definition example_keyPair :: SignKeyPair where
  "example_keyPair =
     \<lparr>kp_publicKey = replicate 32 9, kp_secretKey = replicate 32 7 @ replicate 32 9\<rparr>"

definition example_signer :: TAPSigner where
  "example_signer = \<lparr>signer_keyPair = example_keyPair, signer_keyId = ''test-key''\<rparr>"

definition example_request :: TAPRequestData where
  "example_request =
     \<lparr>req_authority = ''merchant.example'', req_path = ''/checkout'', req_method = ''POST'',
      req_keyId = ''test-key'', req_nonce = ''AAAA'', req_tag = ''agent-payer-auth''\<rparr>"

text \<open>The same request under a key id that is not the signer's.\<close>

definition other_request :: TAPRequestData where
  "other_request = example_request\<lparr>req_keyId := ''other-key''\<rparr>"

text \<open>
  Bodies for \<open>/verify\<close>: one whose fields are strings, one with no signature, one
  whose signature is the number 5.
\<close>

definition example_body :: VerifyBody where
  "example_body =
     \<lparr>body_signatureInput = JString ''sig2=(\"@authority\" \"@path\");created=1700000000'',
      body_signature = JString ''sig2=:AAAA:'',
      body_authority = JString ''merchant.example'',
      body_path = JString ''/checkout'',
      body_publicKey = JString ''CQkJ''\<rparr>"

definition example_Buffer_from :: "jsvalue \<Rightarrow> error + bytes" where
  "example_Buffer_from v = Inr (replicate 32 9)"

definition example_new_signer :: TAPSigner where
  "example_new_signer =
     \<lparr>signer_keyPair =
        \<lparr>kp_publicKey = replicate 32 5, kp_secretKey = replicate 32 3 @ replicate 32 5\<rparr>,
      signer_keyId = ''new-key''\<rparr>"

text \<open>The JWK that \<open>ed25519ToJWK\<close> builds for a signer's public key and key id.\<close>

definition current_JWK :: "TAPSigner \<Rightarrow> JWK" where
  "current_JWK S =
     \<lparr>jwk_kty = ''OKP'', jwk_kid = getKeyId S, jwk_use = ''sig'', jwk_alg = ''EdDSA'',
      jwk_x = Some (base64url_nopad (kp_publicKey (signer_keyPair S))),
      jwk_n = None, jwk_e = None, jwk_crv = Some ''Ed25519''\<rparr>"

text \<open>
  A registry is made for a signer and its keys are listed; the key is rotated, Visa
  accepting the update; the keys are listed again. The result is the second list.
\<close>

definition rotate_and_list :: "TAPSigner \<Rightarrow> TAPSigner \<Rightarrow> error + JWK list" where
  "rotate_and_list old new =
     and_then (getJWKS (VisaKeyRegistry_constructor old)) (\<lambda>(keys, R).
     and_then (rotateKey (Inr ()) R new) (\<lambda>(result, R').
     and_then (getJWKS R') (\<lambda>(keys', R''). Inr keys')))"

text \<open>
  The same steps on any registry: its keys are listed, the key is rotated, Visa
  accepting the update, and the keys are listed again. The result is both lists.
\<close>

definition list_rotate_list ::
  "VisaKeyRegistry \<Rightarrow> TAPSigner \<Rightarrow> error + (JWK list \<times> JWK list)" where
  "list_rotate_list R new =
     and_then (getJWKS R) (\<lambda>(keys, R1).
     and_then (rotateKey (Inr ()) R1 new) (\<lambda>(result, R2).
     and_then (getJWKS R2) (\<lambda>(keys', R3). Inr (keys, keys'))))"

text \<open>A signer with another key pair under the key id of \<open>example_signer\<close>.\<close>

definition same_id_signer :: TAPSigner where
  "same_id_signer =
     \<lparr>signer_keyPair =
        \<lparr>kp_publicKey = replicate 32 5, kp_secretKey = replicate 32 3 @ replicate 32 5\<rparr>,
      signer_keyId = ''test-key''\<rparr>"

section \<open>Lemmas\<close>

subsection \<open>Bytes and base64\<close>

lemma unat_byte_less: "unat (a :: byte) < 256"
  using unsigned_less [of a, where 'a = nat] by simp

lemma byte_of_unat: "(of_nat (unat a) :: byte) = a"
  by simp

lemma byte_char_byte: "byte_of_char (char_of_byte b) = b"
  using unat_byte_less [of b] by (simp add: byte_of_char_def char_of_byte_def)

lemma charCodes_fromCharCode: "charCodes (String_fromCharCode bs) = bs"
  by (induction bs) (simp_all add: charCodes_def String_fromCharCode_def byte_char_byte)

lemma first_byte_of_sextets: "y < 256 \<Longrightarrow> (x div 4) * 4 + (x mod 4 * 16 + y div 16) div 16 = (x::nat)"
  by (simp add: div_mult2_eq [symmetric])

lemma second_byte_of_sextets: "y < 256 \<Longrightarrow> z < 256 \<Longrightarrow> (x mod 4 * 16 + y div 16) mod 16 * 16 + (y mod 16 * 4 + z div 64) div 4 = (y::nat)"
  by (simp add: div_mult2_eq [symmetric])

lemma third_byte_of_sextets: "z < 256 \<Longrightarrow> (y mod 16 * 4 + z div 64) mod 4 * 64 + z mod 64 = (z::nat)"
  by (simp add: div_mult2_eq [symmetric])

lemma second_byte_of_three: "y < 256 \<Longrightarrow> (x mod 4 * 16 + y div 16) mod 16 * 16 + (y mod 16 * 4) div 4 = (y::nat)"
  by (simp add: div_mult2_eq [symmetric])

lemma first_byte_of_two: "(x div 4) * 4 + (x mod 4 * 16) div 16 = (x::nat)"
  by simp

lemma sextet1_less: "x < 256 \<Longrightarrow> x div 4 < (64::nat)"
  by simp

lemma sextet2_less: "y < 256 \<Longrightarrow> x mod 4 * 16 + y div 16 < (64::nat)"
proof -
  assume "y < 256"
  then have "y div 16 < 16" by simp
  moreover have "x mod 4 < 4" by simp
  ultimately show ?thesis by linarith
qed

lemma sextet3_less: "z < 256 \<Longrightarrow> y mod 16 * 4 + z div 64 < (64::nat)"
proof -
  assume "z < 256"
  then have "z div 64 < 4" by simp
  moreover have "y mod 16 < 16" by simp
  ultimately show ?thesis by linarith
qed

lemma sextet2_last_less: "x mod 4 * 16 < (64::nat)"
proof -
  have "x mod 4 < 4" by simp
  then show ?thesis by linarith
qed

lemma sextet3_last_less: "x mod 16 * 4 < (64::nat)"
proof -
  have "x mod 16 < 16" by simp
  then show ?thesis by linarith
qed

lemma sextet4_less: "x mod 64 < (64::nat)"
  by simp

lemmas sextet_bounds = sextet1_less [OF unat_byte_less] sextet2_less [OF unat_byte_less] sextet3_less [OF unat_byte_less] sextet2_last_less sextet3_last_less sextet4_less

lemma length_b64chars: "length b64chars = 64"
  by (simp add: b64chars_def)

lemma distinct_b64chars: "distinct b64chars"
  by (simp add: b64chars_def)

lemma index_from_nth:
  "distinct xs \<Longrightarrow> k < length xs \<Longrightarrow> index_from i (xs ! k) xs = Some (i + k)"
proof (induction xs arbitrary: i k)
  case Nil
  then show ?case by simp
next
  case (Cons x xs)
  show ?case
  proof (cases k)
    case 0
    then show ?thesis by simp
  next
    case (Suc j)
    with Cons.prems have "xs ! j \<noteq> x" "j < length xs" "distinct xs" by auto
    with Cons.IH [of j "i + 1"] Suc show ?thesis by simp
  qed
qed

lemma index_from_None: "index_from i c xs = None \<longleftrightarrow> c \<notin> set xs"
  by (induction xs arbitrary: i) auto

lemma b64_index_char: "i < 64 \<Longrightarrow> b64_index (b64_char i) = Some i"
  unfolding b64_index_def b64_char_def
  using index_from_nth [of b64chars i 0]
  by (simp add: length_b64chars distinct_b64chars)

lemma b64_char_in: "i < 64 \<Longrightarrow> b64_char i \<in> set b64chars"
  by (simp add: b64_char_def length_b64chars)

lemma b64_index_None: "b64_index c = None \<longleftrightarrow> c \<notin> set b64chars"
  by (simp add: b64_index_def index_from_None)

lemma base64_nopad_chars: "set (rfc4648_nopad b64chars bs) \<subseteq> set b64chars"
  by (induction bs rule: base64_encode.induct)
    (simp_all add: b64_char_in [unfolded b64_char_def] sextet_bounds)

lemma base64_encode_nopad:
  "\<exists>k. base64_encode bs = rfc4648_nopad b64chars bs @ replicate k (CHR ''='')"
proof (induction bs rule: base64_encode.induct)
  case (1 a b c rest)
  then show ?case by (simp add: b64_char_def)
next
  case (2 a b)
  have "[CHR ''=''] = replicate 1 (CHR ''='')" by simp
  then show ?case by (metis append.assoc append_Cons append_Nil base64_encode.simps(2) rfc4648_nopad.simps(2) b64_char_def)
next
  case (3 a)
  have "[CHR ''='', CHR ''=''] = replicate 2 (CHR ''='')" by (simp add: numeral_2_eq_2)
  then show ?case by (metis append.assoc append_Cons append_Nil base64_encode.simps(3) rfc4648_nopad.simps(3) b64_char_def)
next
  case 4
  then show ?case by simp
qed

lemma decode_group4:
  assumes "x < 256" "y < 256" "z < 256"
  shows "decode_groups (x div 4 # (x mod 4 * 16 + y div 16) # (y mod 16 * 4 + z div 64)
            # (z mod 64) # ss) = of_nat x # of_nat y # of_nat z # decode_groups ss"
  using assms by (simp only: decode_groups.simps first_byte_of_sextets second_byte_of_sextets third_byte_of_sextets append_Cons append_Nil)

lemma decode_group3:
  assumes "x < 256" "y < 256"
  shows "decode_groups [x div 4, x mod 4 * 16 + y div 16, y mod 16 * 4] = [of_nat x, of_nat y]"
  using assms by (simp only: decode_groups.simps first_byte_of_sextets second_byte_of_three)

lemma decode_group2:
  shows "decode_groups [x div 4, x mod 4 * 16] = [of_nat x]"
  by (simp only: decode_groups.simps first_byte_of_two)

lemma sextets_nopad:
  "\<exists>ss. sextets (rfc4648_nopad b64chars bs) = Some ss \<and> decode_groups ss = bs"
proof (induction bs rule: base64_encode.induct)
  case (1 a b c rest)
  then obtain ss where ss: "sextets (rfc4648_nopad b64chars rest) = Some ss" "decode_groups ss = rest"
    by blast
  have "sextets (rfc4648_nopad b64chars (a # b # c # rest)) =
      Some (unat a div 4 # (unat a mod 4 * 16 + unat b div 16)
            # (unat b mod 16 * 4 + unat c div 64) # (unat c mod 64) # ss)"
    by (simp add: b64_index_char [unfolded b64_char_def] sextet_bounds ss)
  moreover have "decode_groups (unat a div 4 # (unat a mod 4 * 16 + unat b div 16)
            # (unat b mod 16 * 4 + unat c div 64) # (unat c mod 64) # ss) = a # b # c # rest"
    by (simp only: decode_group4 [OF unat_byte_less unat_byte_less unat_byte_less] ss
        byte_of_unat)
  ultimately show ?case by blast
next
  case (2 a b)
  have "sextets (rfc4648_nopad b64chars [a, b]) =
      Some [unat a div 4, unat a mod 4 * 16 + unat b div 16, unat b mod 16 * 4]"
    by (simp add: b64_index_char [unfolded b64_char_def] sextet_bounds)
  moreover have "decode_groups [unat a div 4, unat a mod 4 * 16 + unat b div 16,
      unat b mod 16 * 4] = [a, b]"
    by (simp only: decode_group3 [OF unat_byte_less unat_byte_less] byte_of_unat)
  ultimately show ?case by blast
next
  case (3 a)
  have "sextets (rfc4648_nopad b64chars [a]) = Some [unat a div 4, unat a mod 4 * 16]"
    by (simp add: b64_index_char [unfolded b64_char_def] sextet_bounds)
  moreover have "decode_groups [unat a div 4, unat a mod 4 * 16] = [a]"
    by (simp only: decode_group2 byte_of_unat)
  ultimately show ?case by blast
next
  case 4
  then show ?case by simp
qed

lemma length_nopad_mod4: "length (rfc4648_nopad b64chars bs) mod 4 \<in> {0, 2, 3}"
  by (induction bs rule: base64_encode.induct) simp_all

lemma replace_all_single: "replace_all c [d] s = map (\<lambda>x. if x = c then d else x) s"
  by (induction s) (simp_all add: replace_all_def)

lemma replace_all_empty: "replace_all c [] s = filter (\<lambda>x. x \<noteq> c) s"
  by (induction s) (simp_all add: replace_all_def)

lemma rfc4648_nopad_map:
  assumes "\<And>i. i < 64 \<Longrightarrow> h (al ! i) = al' ! i"
  shows "map h (rfc4648_nopad al bs) = rfc4648_nopad al' bs"
  by (induction bs rule: base64_encode.induct) (simp_all add: assms sextet_bounds)

lemma url_alphabet: "map url_char b64chars = b64url_chars"
  by (simp add: b64chars_def b64url_chars_def url_char_def)

lemma unurl_alphabet: "map unurl_char b64url_chars = b64chars"
  by (simp add: b64chars_def b64url_chars_def unurl_char_def)

lemma length_b64url_chars: "length b64url_chars = 64"
  by (simp add: b64url_chars_def)

lemma url_nth: "i < 64 \<Longrightarrow> url_char (b64chars ! i) = b64url_chars ! i"
  using nth_map [of i b64chars url_char] by (simp add: url_alphabet length_b64chars)

lemma unurl_nth: "i < 64 \<Longrightarrow> unurl_char (b64url_chars ! i) = b64chars ! i"
  using nth_map [of i b64url_chars unurl_char] by (simp add: unurl_alphabet length_b64url_chars)

lemma nopad_url_chars: "set (rfc4648_nopad b64url_chars bs) \<subseteq> set b64url_chars"
  by (induction bs rule: base64_encode.induct)
    (simp_all add: length_b64url_chars sextet_bounds)

lemma eq_notin_b64url: "CHR ''='' \<notin> set b64url_chars"
  by (simp add: b64url_chars_def)

lemma eq_notin_b64: "CHR ''='' \<notin> set b64chars"
  by (simp add: b64chars_def)

lemma base64_to_url:
  "replace_all (CHR ''='') []
       (replace_all (CHR ''/'') ''_''
         (replace_all (CHR ''+'') ''-'' (base64_encode bs))) = base64url_nopad bs"
proof -
  obtain k where k: "base64_encode bs = rfc4648_nopad b64chars bs @ replicate k (CHR ''='')"
    using base64_encode_nopad by blast
  have m: "(\<lambda>x. if x = CHR ''/'' then CHR ''_'' else x)
             \<circ> (\<lambda>x. if x = CHR ''+'' then CHR ''-'' else x) = url_char"
    by (auto simp: fun_eq_iff url_char_def)
  have "filter (\<lambda>x. x \<noteq> CHR ''='') (rfc4648_nopad b64url_chars bs) = rfc4648_nopad b64url_chars bs"
    using nopad_url_chars [of bs] eq_notin_b64url by (auto intro!: filter_True)
  then show ?thesis
    by (simp add: replace_all_single replace_all_empty m k base64url_nopad_def
        rfc4648_nopad_map [of url_char b64chars b64url_chars, OF url_nth] url_char_def)
qed

lemma base64UrlEncode_spec: "base64UrlEncode bs = base64url_nopad bs"
  by (simp add: base64UrlEncode_def btoa_def charCodes_fromCharCode base64_to_url)

lemma base64urlEncode_spec: "base64urlEncode bs = base64url_nopad bs"
  by (simp add: base64urlEncode_def Buffer_toString_base64_def base64_to_url)

lemma strip_padding_nopad:
  assumes "CHR ''='' \<notin> set body" "k \<le> 2"
  shows "strip_padding (body @ replicate k (CHR ''='')) = body"
proof -
  from assms(2) consider "k = 0" | "k = 1" | "k = 2" by linarith
  then show ?thesis
  proof cases
    case 1
    show ?thesis
    proof (cases "rev body")
      case Nil
      then show ?thesis using 1 by (simp add: strip_padding_def)
    next
      case (Cons x r)
      then have "x \<in> set body" by (metis list.set_intros(1) set_rev)
      with assms(1) have "x \<noteq> CHR ''=''" by blast
      then show ?thesis using 1 Cons by (simp add: strip_padding_def split: list.splits)
    qed
  next
    case 2
    show ?thesis
    proof (cases "rev body")
      case Nil
      then show ?thesis using 2 by (simp add: strip_padding_def)
    next
      case (Cons x r)
      then have "x \<in> set body" by (metis list.set_intros(1) set_rev)
      with assms(1) have "x \<noteq> CHR ''=''" by blast
      moreover from Cons have "body = rev r @ [x]" by (metis rev.simps(2) rev_rev_ident)
      ultimately show ?thesis using 2 Cons by (simp add: strip_padding_def)
    qed
  next
    case 3
    then have "replicate k (CHR ''='') = [CHR ''='', CHR ''='']" by (simp add: numeral_2_eq_2)
    then show ?thesis by (simp add: strip_padding_def)
  qed
qed

lemma no_whitespace_b64: "\<forall>c \<in> set b64chars. \<not> is_ascii_whitespace c"
  by (simp add: b64chars_def is_ascii_whitespace_def)

lemma atob_nopad:
  "atob (rfc4648_nopad b64chars bs
         @ replicate ((4 - length (rfc4648_nopad b64chars bs) mod 4) mod 4) (CHR ''=''))
   = Inr (String_fromCharCode bs)"
proof -
  define body where "body = rfc4648_nopad b64chars bs"
  define k where "k = (4 - length body mod 4) mod 4"
  have chars: "set body \<subseteq> set b64chars" unfolding body_def by (rule base64_nopad_chars)
  have len: "length body mod 4 \<in> {0, 2, 3}" unfolding body_def by (rule length_nopad_mod4)
  then have k2: "k \<le> 2" and n1: "length body mod 4 \<noteq> 1"
    unfolding k_def by auto
  have l4: "(length body + k) mod 4 = 0"
  proof -
    have "(length body + k) mod 4 = (length body mod 4 + k) mod 4"
      by (simp add: mod_add_left_eq)
    also have "\<dots> = 0" using len unfolding k_def by auto
    finally show ?thesis .
  qed
  have nows: "filter (\<lambda>c. \<not> is_ascii_whitespace c) (body @ replicate k (CHR ''=''))
      = body @ replicate k (CHR ''='')"
    using chars no_whitespace_b64 by (auto intro!: filter_True simp: is_ascii_whitespace_def)
  have noeq: "CHR ''='' \<notin> set body" using chars eq_notin_b64 by blast
  obtain ss where ss: "sextets body = Some ss" "decode_groups ss = bs"
    unfolding body_def using sextets_nopad by blast
  show ?thesis
    unfolding body_def [symmetric] k_def [symmetric] atob_def Let_def nows
    using n1 by (simp add: l4 strip_padding_nopad [OF noeq k2] ss)
qed

lemma base64Url_roundtrip: "base64UrlDecode (base64url_nopad bs) = Inr bs"
proof -
  have m: "(\<lambda>x. if x = CHR ''_'' then CHR ''/'' else x)
             \<circ> (\<lambda>x. if x = CHR ''-'' then CHR ''+'' else x) = unurl_char"
    by (auto simp: fun_eq_iff unurl_char_def)
  have "replace_all (CHR ''_'') ''/'' (replace_all (CHR ''-'') ''+'' (base64url_nopad bs))
      = rfc4648_nopad b64chars bs"
    by (simp add: replace_all_single m base64url_nopad_def
        rfc4648_nopad_map [of unurl_char b64url_chars b64chars, OF unurl_nth])
  then show ?thesis
    by (simp add: base64UrlDecode_def atob_nopad and_then_def charCodes_fromCharCode Let_def)
qed

subsection \<open>The signature wrapper\<close>

lemma strip_wrapper_wrapped: "strip_wrapper (''sig2=:'' @ s @ '':'') = s"
  by (simp add: strip_wrapper_def)

lemma eq_notin_base64url: "CHR ''='' \<notin> set (base64url_nopad bs)"
  using nopad_url_chars [of bs] eq_notin_b64url by (auto simp: base64url_nopad_def)

subsection \<open>Matching and storing the parameters\<close>

lemma not_word_eq: "\<not> is_word_char (CHR ''='')"
  by (simp add: is_word_char_def)

lemma not_word_semi: "\<not> is_word_char (CHR '';'')"
  by (simp add: is_word_char_def)

lemma match_all_nonword: "\<not> is_word_char c \<Longrightarrow> match_all (c # cs) = match_all cs"
  by (simp add: match_all.simps split: list.splits)

lemma match_all_seg:
  assumes k: "k \<noteq> []" "list_all is_word_char k"
      and v: "v \<noteq> []" "CHR '';'' \<notin> set v"
      and rest: "rest = [] \<or> hd rest = CHR '';''"
  shows "match_all (k @ CHR ''='' # v @ rest) = (k @ CHR ''='' # v) # match_all rest"
proof -
  from k obtain c k' where kc: "k = c # k'" by (cases k) auto
  from v obtain v0 v' where vc: "v = v0 # v'" by (cases v) auto
  have allk: "\<forall>x\<in>set k. is_word_char x" using k(2) by (simp add: list_all_iff)
  have tw: "takeWhile is_word_char (k @ CHR ''='' # v @ rest) = k"
    using allk not_word_eq by (simp add: takeWhile_append2)
  have dw: "dropWhile is_word_char (k @ CHR ''='' # v @ rest) = CHR ''='' # v @ rest"
    using allk not_word_eq by (simp add: dropWhile_append2)
  have allv: "\<forall>x\<in>set v. x \<noteq> CHR '';''" using v(2) by auto
  have tv: "takeWhile (\<lambda>x. x \<noteq> CHR '';'') (v @ rest) = v"
    using allv rest by (cases rest) (simp_all add: takeWhile_append2)
  have dv: "dropWhile (\<lambda>x. x \<noteq> CHR '';'') (v @ rest) = rest"
    using allv rest by (cases rest) (simp_all add: dropWhile_append2)
  have wc: "is_word_char c" using allk kc by simp
  have v0: "v0 \<noteq> CHR '';''" using allv vc by simp
  have "match_all (c # (k' @ CHR ''='' # v @ rest))
      = (takeWhile is_word_char (c # (k' @ CHR ''='' # v @ rest)) @ [CHR ''='']
          @ takeWhile (\<lambda>x. x \<noteq> CHR '';'') (v0 # (v' @ rest)))
        # match_all (dropWhile (\<lambda>x. x \<noteq> CHR '';'') (v0 # (v' @ rest)))"
    using dw wc v0 unfolding kc vc
    by (subst match_all.simps) (simp only: append_Cons list.case if_True simp_thms)
  then show ?thesis
    using tw tv dv unfolding kc vc by (simp only: append_Cons) simp
qed

lemma render_params_hd:
  "kvs \<noteq> [] \<Longrightarrow> render_params ((k, v) # kvs) = k @ CHR ''='' # v @ CHR '';'' # render_params kvs"
  by (cases kvs) auto

lemma match_all_render:
  "list_all wf_param kvs \<Longrightarrow>
   match_all (render_params kvs) = map (\<lambda>kv. fst kv @ CHR ''='' # snd kv) kvs"
proof (induction kvs rule: render_params.induct)
  case 1
  then show ?case by (simp add: match_all.simps)
next
  case (2 k v)
  then show ?case
    using match_all_seg [of k v "[]"] by (simp add: wf_param_def match_all.simps)
next
  case (3 k v kv kvs)
  then have wf: "k \<noteq> []" "list_all is_word_char k" "v \<noteq> []" "CHR '';'' \<notin> set v"
    by (simp_all add: wf_param_def)
  have "match_all (k @ CHR ''='' # v @ (CHR '';'' # render_params (kv # kvs)))
      = (k @ CHR ''='' # v) # match_all (CHR '';'' # render_params (kv # kvs))"
    using match_all_seg [OF wf, of "CHR '';'' # render_params (kv # kvs)"] by simp
  with 3 show ?case by (simp add: match_all_nonword not_word_semi)
qed

lemma split_on_prefix: "c \<notin> set k \<Longrightarrow> split_on c (k @ c # v) = k # split_on c v"
  by (induction k) auto

lemma split_on_hd: "\<exists>t. split_on c v = takeWhile (\<lambda>x. x \<noteq> c) v # t"
  by (induction v) auto

lemma store_param_seg:
  assumes "CHR ''='' \<notin> set k"
  shows "store_param params (k @ CHR ''='' # v) = Inr (params(k \<mapsto> param_value v))"
proof -
  obtain t where "split_on (CHR ''='') v = takeWhile (\<lambda>x. x \<noteq> CHR ''='') v # t"
    using split_on_hd by blast
  then show ?thesis
    using assms by (simp add: store_param_def split_on_prefix param_value_def replace_all_empty)
qed

lemma word_no_eq: "list_all is_word_char k \<Longrightarrow> CHR ''='' \<notin> set k"
  using not_word_eq by (auto simp: list_all_iff)

lemma store_params_render:
  "list_all wf_param kvs \<Longrightarrow>
   store_params params (map (\<lambda>kv. fst kv @ CHR ''='' # snd kv) kvs) = Inr (store_all params kvs)"
proof (induction kvs arbitrary: params)
  case Nil
  then show ?case by simp
next
  case (Cons kv kvs)
  obtain k v where kv: "kv = (k, v)" by (cases kv)
  with Cons.prems have "CHR ''='' \<notin> set k" by (simp add: wf_param_def word_no_eq)
  with Cons kv show ?case by (simp add: store_param_seg)
qed

lemma parse_render:
  "list_all wf_param kvs \<Longrightarrow> parseSignatureInput (render_params kvs) = Inr (store_all Map.empty kvs)"
  by (simp add: parseSignatureInput_def match_all_render store_params_render)

lemma store_all_lookup:
  "distinct (map fst kvs) \<Longrightarrow>
   store_all params kvs x = (case map_of kvs x of None \<Rightarrow> params x | Some v \<Rightarrow> Some (param_value v))"
proof (induction kvs arbitrary: params)
  case Nil
  then show ?case by simp
next
  case (Cons kv kvs)
  obtain k v where kv: "kv = (k, v)" by (cases kv)
  with Cons.prems have nk: "k \<notin> fst ` set kvs" and d: "distinct (map fst kvs)" by auto
  from nk have "map_of kvs k = None" by (simp add: map_of_eq_None_iff)
  with Cons.IH [OF d] kv show ?case by (auto split: option.splits)
qed

lemma store_all_perm:
  assumes "distinct (map fst kvs)" "distinct (map fst kvs')" "set kvs' = set kvs"
  shows "store_all params kvs' = store_all params kvs"
proof
  fix x
  have "map_of kvs' = map_of kvs"
    using assms by (intro map_of_inject_set [THEN iffD2]) auto
  then show "store_all params kvs' x = store_all params kvs x"
    using assms by (simp add: store_all_lookup)
qed

lemma match_all_has_eq:
  "m \<in> set (match_all s) \<Longrightarrow> \<exists>k v. m = k @ CHR ''='' # v \<and> CHR ''='' \<notin> set k"
proof (induction s rule: match_all.induct)
  case 1
  then show ?case by (simp add: match_all.simps)
next
  case (2 c cs)
  have tk: "CHR ''='' \<notin> set (takeWhile is_word_char (c # cs))"
    using not_word_eq by (metis set_takeWhileD)
  show ?case
  proof (cases "dropWhile is_word_char (c # cs)")
    case Nil
    with 2 show ?thesis by (simp add: match_all.simps)
  next
    case (Cons e vr)
    note dw = this
    show ?thesis
    proof (cases vr)
      case Nil
      with 2 Cons show ?thesis by (simp add: match_all.simps)
    next
      case (Cons v r)
      note vr = this
      show ?thesis
      proof (cases "is_word_char c \<and> e = CHR ''='' \<and> v \<noteq> CHR '';''")
        case True
        have eq: "match_all (c # cs) =
            (takeWhile is_word_char (c # cs) @ [e] @ takeWhile (\<lambda>x. x \<noteq> CHR '';'') (v # r))
            # match_all (dropWhile (\<lambda>x. x \<noteq> CHR '';'') (v # r))"
          using dw vr True
          by (subst match_all.simps) (simp del: takeWhile.simps dropWhile.simps)
        from "2.prems" eq consider
            "m = takeWhile is_word_char (c # cs) @ [e] @ takeWhile (\<lambda>x. x \<noteq> CHR '';'') (v # r)"
          | "m \<in> set (match_all (dropWhile (\<lambda>x. x \<noteq> CHR '';'') (v # r)))"
          by auto
        then show ?thesis
        proof cases
          case 1
          with True have "m = takeWhile is_word_char (c # cs)
              @ CHR ''='' # takeWhile (\<lambda>x. x \<noteq> CHR '';'') (v # r)"
            by simp
          with tk show ?thesis by blast
        next
          case 2
          with "2.IH"(3) [OF dw vr True] show ?thesis by blast
        qed
      next
        case False
        have eq: "match_all (c # cs) = match_all cs"
          using dw vr False
          by (subst match_all.simps) (auto simp del: takeWhile.simps dropWhile.simps)
        with "2.prems" "2.IH"(4) [OF dw vr False] show ?thesis by simp
      qed
    qed
  qed
qed

lemma store_params_total:
  "\<forall>m \<in> set ms. \<exists>k v. m = k @ CHR ''='' # v \<and> CHR ''='' \<notin> set k \<Longrightarrow>
   \<exists>params'. store_params params ms = Inr params'"
proof (induction ms arbitrary: params)
  case Nil
  then show ?case by simp
next
  case (Cons m ms)
  then obtain k v where "m = k @ CHR ''='' # v" "CHR ''='' \<notin> set k" by auto
  then have "store_param params m = Inr (params(k \<mapsto> param_value v))"
    by (simp add: store_param_seg)
  with Cons show ?case by simp
qed

lemma parseSignatureInput_total: "\<exists>params. parseSignatureInput s = Inr params"
  unfolding parseSignatureInput_def
  by (rule store_params_total) (use match_all_has_eq in blast)

subsection \<open>Decimal text\<close>

lemma digit_char_in: "d < 10 \<Longrightarrow> digit_char d \<in> set ''0123456789''"
  unfolding digit_char_def by (rule nth_mem) simp

lemma string_of_nat_chars: "set (string_of_nat n) \<subseteq> set ''0123456789'' \<and> string_of_nat n \<noteq> []"
proof (induction n rule: string_of_nat.induct)
  case (1 n)
  show ?case
  proof (cases "n < 10")
    case True
    then have "string_of_nat n = [digit_char n]"
      by (subst string_of_nat.simps) simp
    then show ?thesis using digit_char_in [OF True] by simp
  next
    case False
    then have "string_of_nat n = string_of_nat (n div 10) @ [digit_char (n mod 10)]"
      by (subst string_of_nat.simps) simp
    moreover have "digit_char (n mod 10) \<in> set ''0123456789''"
      by (rule digit_char_in) simp
    ultimately show ?thesis using 1 [OF False] by simp
  qed
qed

lemma Number_toString_chars:
  "set (Number_toString i) \<subseteq> set ''-0123456789'' \<and> Number_toString i \<noteq> []"
proof -
  have sub: "set ''0123456789'' \<subseteq> set ''-0123456789''"
    by (rule set_subset_Cons)
  show ?thesis
  proof (cases "i < 0")
    case True
    then have "Number_toString i = CHR ''-'' # string_of_nat (nat (- i))"
      by (simp add: Number_toString_def)
    moreover have "set (string_of_nat (nat (- i))) \<subseteq> set ''-0123456789''"
      using string_of_nat_chars [of "nat (- i)"] sub by (meson subset_trans)
    ultimately show ?thesis by simp
  next
    case False
    then have "Number_toString i = string_of_nat (nat i)"
      by (simp add: Number_toString_def)
    moreover have "set (string_of_nat (nat i)) \<subseteq> set ''-0123456789''"
      using string_of_nat_chars [of "nat i"] sub by (meson subset_trans)
    ultimately show ?thesis using string_of_nat_chars [of "nat i"] by simp
  qed
qed

lemma Number_toString_wf:
  "Number_toString i \<noteq> []" "CHR '';'' \<notin> set (Number_toString i)"
  "CHR ''='' \<notin> set (Number_toString i)" "CHR 0x22 \<notin> set (Number_toString i)"
proof -
  have a: "CHR '';'' \<notin> set ''-0123456789''" by simp
  have b: "CHR ''='' \<notin> set ''-0123456789''" by simp
  have c: "CHR 0x22 \<notin> set ''-0123456789''" by simp
  show "Number_toString i \<noteq> []" using Number_toString_chars [of i] by blast
  show "CHR '';'' \<notin> set (Number_toString i)" using Number_toString_chars [of i] a by blast
  show "CHR ''='' \<notin> set (Number_toString i)" using Number_toString_chars [of i] b by blast
  show "CHR 0x22 \<notin> set (Number_toString i)" using Number_toString_chars [of i] c by blast
qed

subsection \<open>The parameters the signer writes\<close>

lemma param_value_plain:
  "CHR ''='' \<notin> set s \<Longrightarrow> CHR 0x22 \<notin> set s \<Longrightarrow> param_value s = s"
proof -
  assume a: "CHR ''='' \<notin> set s" "CHR 0x22 \<notin> set s"
  from a(1) have "takeWhile (\<lambda>x. x \<noteq> CHR ''='') s = s"
    by (auto simp: takeWhile_eq_all_conv)
  moreover from a(2) have "filter (\<lambda>x. x \<noteq> CHR 0x22) s = s"
    by (auto simp: filter_id_conv)
  ultimately show ?thesis by (simp only: param_value_def)
qed

lemma filter_takeWhile_id:
  assumes "c \<notin> set s"
  shows "filter (\<lambda>x. x \<noteq> c) (takeWhile P s) = takeWhile P s"
proof (rule filter_True)
  show "\<forall>x\<in>set (takeWhile P s). x \<noteq> c"
    using assms set_takeWhileD [of _ P s] by blast
qed

lemma param_value_quoted:
  assumes "CHR 0x22 \<notin> set s"
  shows "param_value (CHR 0x22 # s @ [CHR 0x22]) = takeWhile (\<lambda>x. x \<noteq> CHR ''='') s"
proof -
  let ?P = "\<lambda>x. x \<noteq> CHR ''=''"
  have "filter (\<lambda>x. x \<noteq> CHR 0x22) (takeWhile ?P (s @ [CHR 0x22])) = takeWhile ?P s"
  proof (cases "CHR ''='' \<in> set s")
    case True
    have "takeWhile ?P (s @ [CHR 0x22]) = takeWhile ?P s"
      by (rule takeWhile_append1 [OF True]) simp
    then show ?thesis by (simp only: filter_takeWhile_id [OF assms])
  next
    case False
    then have all: "\<forall>x\<in>set s. ?P x" by blast
    have "takeWhile ?P (s @ [CHR 0x22]) = s @ takeWhile ?P [CHR 0x22]"
      by (rule takeWhile_append2) (use all in blast)
    then have t: "takeWhile ?P (s @ [CHR 0x22]) = s @ [CHR 0x22]" by simp
    have f: "filter (\<lambda>x. x \<noteq> CHR 0x22) s = s"
      by (rule filter_True) (use assms in blast)
    have ts: "takeWhile ?P s = s"
      using takeWhile_append2 [of s ?P "[]"] all by simp
    show ?thesis by (simp only: t ts filter_append f) simp
  qed
  then show ?thesis by (simp add: param_value_def)
qed

lemma signatureInput_render:
  "signatureInput_of created keyId expires nonce tag
     = render_params (signature_params created keyId expires nonce tag)"
  by (simp add: signatureInput_of_def signature_params_def)

lemma signature_params_wf:
  assumes "CHR '';'' \<notin> set keyId" "CHR '';'' \<notin> set nonce" "CHR '';'' \<notin> set tag"
  shows "list_all wf_param (signature_params created keyId expires nonce tag)"
  using assms
  by (simp add: signature_params_def wf_param_def is_word_char_def Number_toString_wf)

lemma parse_signatureInput:
  assumes "CHR '';'' \<notin> set keyId" "CHR '';'' \<notin> set nonce" "CHR '';'' \<notin> set tag"
  shows "parseSignatureInput (signatureInput_of created keyId expires nonce tag)
     = Inr (store_all Map.empty (signature_params created keyId expires nonce tag))"
  by (simp only: signatureInput_render parse_render [OF signature_params_wf [OF assms]])

lemma routes_base_of_lookups:
  assumes "params ''created'' = Some (Number_toString created)"
      and "params ''keyid'' = Some keyId"
      and "params ''expires'' = Some (Number_toString expires)"
      and "params ''nonce'' = Some nonce"
      and "params ''tag'' = Some tag"
  shows "routes_createSignatureBase authority path params
     = createSignatureBase authority path created keyId expires nonce tag"
  using assms
  by (simp add: routes_createSignatureBase_def createSignatureBase_def read_prop_def)

lemma signature_params_keys:
  "map fst (signature_params created keyId expires nonce tag)
     = [''sig2'', ''created'', ''keyid'', ''expires'', ''nonce'', ''tag'']"
  by (simp add: signature_params_def)

lemma signature_params_lookups:
  fixes created expires :: int
  assumes "CHR ''='' \<notin> set keyId" "CHR 0x22 \<notin> set keyId"
      and "CHR ''='' \<notin> set nonce" "CHR 0x22 \<notin> set nonce"
      and "CHR ''='' \<notin> set tag" "CHR 0x22 \<notin> set tag"
  defines "ps \<equiv> store_all Map.empty (signature_params created keyId expires nonce tag)"
  shows "ps ''created'' = Some (Number_toString created)"
    and "ps ''keyid'' = Some keyId"
    and "ps ''expires'' = Some (Number_toString expires)"
    and "ps ''nonce'' = Some nonce"
    and "ps ''tag'' = Some tag"
proof -
  have t: "takeWhile (\<lambda>x. x \<noteq> CHR ''='') s = s" if "CHR ''='' \<notin> set s" for s
    by (rule takeWhile_eq_all_conv [THEN iffD2]) (use that in blast)
  note q = param_value_quoted [OF assms(2)] param_value_quoted [OF assms(4)]
    param_value_quoted [OF assms(6)]
  show "ps ''created'' = Some (Number_toString created)"
    "ps ''keyid'' = Some keyId"
    "ps ''expires'' = Some (Number_toString expires)"
    "ps ''nonce'' = Some nonce"
    "ps ''tag'' = Some tag"
    unfolding ps_def signature_params_def
    by (simp_all only: store_all.simps q t [OF assms(1)] t [OF assms(3)] t [OF assms(5)]
        param_value_plain [OF Number_toString_wf(3) Number_toString_wf(4)])
      simp_all
qed

subsection \<open>Signing and verifying\<close>

lemma verifySignature_eq:
  "verifySignature N S signatureBase signature publicKey =
     Inr (case base64UrlDecode signature of
            Inl err \<Rightarrow> False
          | Inr sigBytes \<Rightarrow>
              length sigBytes = 64
              \<and> length (case publicKey of Some k \<Rightarrow> k | None \<Rightarrow> kp_publicKey (signer_keyPair S)) = 32
              \<and> ed_open N (TextEncoder_encode signatureBase) sigBytes
                   (case publicKey of Some k \<Rightarrow> k | None \<Rightarrow> kp_publicKey (signer_keyPair S)))"
  by (simp add: verifySignature_def and_then_def nacl_sign_detached_verify_def Let_def
      split: sum.splits)

lemma signTAPRequest_result:
  assumes "length (kp_secretKey (signer_keyPair S)) = 64"
  shows "signTAPRequest N S now req =
      Inr \<lparr>Signature_Input =
             signatureInput_of (now div 1000) (signer_keyId S) (now div 1000 + 480)
               (req_nonce req) (req_tag req),
           Signature =
             ''sig2=:'' @ base64url_nopad
                (ed_sign N
                   (TextEncoder_encode
                      (createSignatureBase (req_authority req) (req_path req) (now div 1000)
                         (signer_keyId S) (now div 1000 + 480) (req_nonce req) (req_tag req)))
                   (kp_secretKey (signer_keyPair S)))
             @ '':''\<rparr>"
  using assms
  by (simp add: signTAPRequest_def nacl_sign_detached_def and_then_def Let_def
      base64UrlEncode_spec)

lemma toy_ed25519_correct:
  "length (ed_sign toy_ed25519 msg secretKey) = 64
   \<and> ed_open toy_ed25519 msg (ed_sign toy_ed25519 msg secretKey) (drop 32 secretKey)"
  by (auto simp: toy_ed25519_def min_def)

lemma example_keys_match:
  "\<forall>msg. length (ed_sign toy_ed25519 msg (kp_secretKey (signer_keyPair example_signer))) = 64
      \<and> ed_open toy_ed25519 msg
           (ed_sign toy_ed25519 msg (kp_secretKey (signer_keyPair example_signer)))
           (kp_publicKey (signer_keyPair example_signer))"
proof -
  have "drop 32 (kp_secretKey (signer_keyPair example_signer))
      = kp_publicKey (signer_keyPair example_signer)"
    by (simp add: example_signer_def example_keyPair_def)
  then show ?thesis
    using toy_ed25519_correct [of _ "kp_secretKey (signer_keyPair example_signer)"] by simp
qed

lemma length_ed25519_correct:
  "length (ed_sign length_ed25519 msg secretKey) = 64
   \<and> ed_open length_ed25519 msg (ed_sign length_ed25519 msg secretKey) (drop 32 secretKey)"
  by (simp add: length_ed25519_def)

lemma example_keys_match_length:
  "\<forall>msg. length (ed_sign length_ed25519 msg (kp_secretKey (signer_keyPair example_signer))) = 64
      \<and> ed_open length_ed25519 msg
           (ed_sign length_ed25519 msg (kp_secretKey (signer_keyPair example_signer)))
           (kp_publicKey (signer_keyPair example_signer))"
proof -
  have "drop 32 (kp_secretKey (signer_keyPair example_signer))
      = kp_publicKey (signer_keyPair example_signer)"
    by (simp add: example_signer_def example_keyPair_def)
  then show ?thesis
    using length_ed25519_correct [of _ "kp_secretKey (signer_keyPair example_signer)"] by simp
qed

lemma sign_then_verify_eq:
  assumes "length (kp_secretKey (signer_keyPair S)) = 64"
  shows "sign_then_verify N S now req =
      Inr (length (ed_sign N
                     (TextEncoder_encode
                        (createSignatureBase (req_authority req) (req_path req) (now div 1000)
                           (signer_keyId S) (now div 1000 + 480) (req_nonce req) (req_tag req)))
                     (kp_secretKey (signer_keyPair S))) = 64
           \<and> length (kp_publicKey (signer_keyPair S)) = 32
           \<and> ed_open N
                (TextEncoder_encode
                   (createSignatureBase (req_authority req) (req_path req) (now div 1000)
                      (req_keyId req) (now div 1000 + 480) (req_nonce req) (req_tag req)))
                (ed_sign N
                   (TextEncoder_encode
                      (createSignatureBase (req_authority req) (req_path req) (now div 1000)
                         (signer_keyId S) (now div 1000 + 480) (req_nonce req) (req_tag req)))
                   (kp_secretKey (signer_keyPair S)))
                (kp_publicKey (signer_keyPair S)))"
  by (simp add: sign_then_verify_def signTAPRequest_result [OF assms] and_then_def
      verifySignature_eq strip_wrapper_wrapped [simplified] base64Url_roundtrip)

lemma encoded_base_length:
  "length (TextEncoder_encode
             (createSignatureBase authority path created keyid expires nonce tag))
     = length (TextEncoder_encode
                 (createSignatureBase authority path created [] expires nonce tag))
       + length (TextEncoder_encode keyid)"
  by (simp add: createSignatureBase_def TextEncoder_encode_def)

lemma byte_succ_neq: "(of_nat (n + 9) :: byte) \<noteq> of_nat (n + 8)"
proof
  assume a: "(of_nat (n + 9) :: byte) = of_nat (n + 8)"
  have "(of_nat (n + 9) :: byte) = of_nat (n + 8) + 1" by simp
  with a have "(of_nat (n + 8) :: byte) + 1 = of_nat (n + 8)" by simp
  then show False by simp
qed

subsection \<open>Text that is not base64url\<close>

lemma sextets_invalid: "c \<in> set d \<Longrightarrow> b64_index c = None \<Longrightarrow> sextets d = None"
  by (induction d) (auto split: option.splits)

lemma strip_padding_keeps:
  assumes "c \<in> set d" "c \<noteq> CHR ''=''"
  shows "c \<in> set (strip_padding d)"
proof (cases "rev d")
  case Nil
  then show ?thesis using assms by (simp add: strip_padding_def)
next
  case (Cons x r)
  then have d: "d = rev r @ [x]" by (simp add: rev_swap)
  show ?thesis
  proof (cases r)
    case Nil
    then show ?thesis using assms d by (simp add: strip_padding_def)
  next
    case (Cons y r')
    then have d': "d = rev r' @ [y, x]" using d by simp
    then have "rev d = x # y # r'" by simp
    then show ?thesis using assms d' by (auto simp: strip_padding_def)
  qed
qed

lemma atob_invalid:
  assumes "c \<in> set input" "\<not> is_ascii_whitespace c" "c \<noteq> CHR ''=''" "b64_index c = None"
  shows "atob input = Inl InvalidCharacterError"
proof -
  let ?d = "filter (\<lambda>c. \<not> is_ascii_whitespace c) input"
  let ?d' = "if length ?d mod 4 = 0 then strip_padding ?d else ?d"
  have "c \<in> set ?d" using assms(1,2) by simp
  then have "c \<in> set ?d'" using assms(3) by (simp add: strip_padding_keeps)
  then have "sextets ?d' = None" using assms(4) by (rule sextets_invalid)
  then show ?thesis by (simp add: atob_def Let_def)
qed

lemma replace_all_keeps: "d \<in> set s \<Longrightarrow> d \<noteq> c \<Longrightarrow> d \<in> set (replace_all c r s)"
  by (induction s) (auto simp: replace_all_def)

lemma base64UrlDecode_colon:
  assumes "CHR '':'' \<in> set data"
  shows "base64UrlDecode data = Inl InvalidCharacterError"
proof -
  let ?b = "replace_all (CHR ''_'') ''/'' (replace_all (CHR ''-'') ''+'' data)"
  have "CHR '':'' \<in> set ?b"
    using assms by (intro replace_all_keeps) simp_all
  then have "CHR '':'' \<in> set (?b @ replicate ((4 - length ?b mod 4) mod 4) (CHR ''=''))"
    by simp
  moreover have "\<not> is_ascii_whitespace (CHR '':'')" by (simp add: is_ascii_whitespace_def)
  moreover have "b64_index (CHR '':'') = None" by (simp add: b64_index_def b64chars_def)
  ultimately have "atob (?b @ replicate ((4 - length ?b mod 4) mod 4) (CHR ''='')) =
      Inl InvalidCharacterError"
    by (intro atob_invalid [of "CHR '':''"]) simp_all
  then show ?thesis by (simp add: base64UrlDecode_def Let_def and_then_def)
qed

lemma verifySignature_wrapped:
  "verifySignature N S signatureBase (''sig2=:'' @ b64 @ '':'') publicKey = Inr False"
proof -
  have "base64UrlDecode (''sig2=:'' @ b64 @ '':'') = Inl InvalidCharacterError"
    by (rule base64UrlDecode_colon) simp
  then show ?thesis by (simp only: verifySignature_eq) simp
qed

subsection \<open>The cases of the \<open>/verify\<close> handler\<close>

lemma verify_route_400:
  assumes "\<not> js_truthy (body_signatureInput body) \<or> \<not> js_truthy (body_signature body)
      \<or> \<not> js_truthy (body_authority body) \<or> \<not> js_truthy (body_path body)"
  shows "verify_route N Buffer_from S body = Status400"
  using assms by (simp add: verify_route_def Let_def)

lemma verify_route_200:
  assumes t: "js_truthy (body_signatureInput body)" "js_truthy (body_signature body)"
      "js_truthy (body_authority body)" "js_truthy (body_path body)"
    and s: "body_signatureInput body = JString signatureInput"
      "body_signature body = JString signature"
      "js_toString (body_authority body) = Inr authority"
      "js_toString (body_path body) = Inr path"
    and k: "(if js_truthy (body_publicKey body) then Buffer_from (body_publicKey body)
             else Buffer_from (JString (getPublicKey S))) = Inr pubKeyBytes"
    and p: "parseSignatureInput signatureInput = Inr params"
  shows "verify_route N Buffer_from S body =
      Status200
        \<lparr>res_valid =
           (case base64UrlDecode (strip_wrapper signature) of
              Inl err \<Rightarrow> False
            | Inr sigBytes \<Rightarrow>
                length sigBytes = 64 \<and> length pubKeyBytes = 32
                \<and> ed_open N
                     (TextEncoder_encode (routes_createSignatureBase authority path params))
                     sigBytes pubKeyBytes),
         res_keyId = params ''keyid'', res_timestamp = params ''created'',
         res_expires = params ''expires''\<rparr>"
proof -
  have g: "\<not> (\<not> js_truthy (body_signatureInput body) \<or> \<not> js_truthy (body_signature body)
      \<or> \<not> js_truthy (body_authority body) \<or> \<not> js_truthy (body_path body))"
    using t by simp
  show ?thesis
    unfolding verify_route_def Let_def if_not_P [OF g]
    by (simp add: s k p string_receiver_def and_then_def verifySignature_eq split: sum.splits)
qed

lemma verify_route_500:
  assumes t: "js_truthy (body_signatureInput body)" "js_truthy (body_signature body)"
      "js_truthy (body_authority body)" "js_truthy (body_path body)"
    and e: "string_receiver (body_signatureInput body) = Inl err
      \<or> js_toString (body_authority body) = Inl err
      \<or> js_toString (body_path body) = Inl err
      \<or> (if js_truthy (body_publicKey body) then Buffer_from (body_publicKey body)
          else Buffer_from (JString (getPublicKey S))) = Inl err
      \<or> string_receiver (body_signature body) = Inl err"
  shows "verify_route N Buffer_from S body = Status500"
proof -
  have g: "\<not> (\<not> js_truthy (body_signatureInput body) \<or> \<not> js_truthy (body_signature body)
      \<or> \<not> js_truthy (body_authority body) \<or> \<not> js_truthy (body_path body))"
    using t by simp
  define key where "key = (if js_truthy (body_publicKey body) then Buffer_from (body_publicKey body)
          else Buffer_from (JString (getPublicKey S)))"
  show ?thesis
    unfolding verify_route_def Let_def if_not_P [OF g] key_def [symmetric]
    using e [folded key_def] by (auto simp: and_then_def split: sum.splits)
qed

subsection \<open>Padded base64 text\<close>

lemma base64_encode_chars: "set (base64_encode bs) \<subseteq> insert (CHR ''='') (set b64chars)"
proof -
  obtain k where "base64_encode bs = rfc4648_nopad b64chars bs @ replicate k (CHR ''='')"
    using base64_encode_nopad by blast
  then show ?thesis using base64_nopad_chars [of bs] by auto
qed

lemma base64_encode_padded:
  "length bs mod 3 \<noteq> 0 \<Longrightarrow> CHR ''='' \<in> set (base64_encode bs)"
proof (induction bs rule: base64_encode.induct)
  case (1 a b c rest)
  have "length (a # b # c # rest) = length rest + 3" by simp
  with 1 show ?case by (simp only: mod_add_self2 base64_encode.simps) simp
qed simp_all

lemma route_nonce_chars:
  assumes "length randomBytes = 64"
  shows "CHR ''='' \<in> set (Buffer_toString_base64 randomBytes)"
    and "CHR '';'' \<notin> set (Buffer_toString_base64 randomBytes)"
    and "CHR 0x22 \<notin> set (Buffer_toString_base64 randomBytes)"
proof -
  have a: "CHR '';'' \<notin> insert (CHR ''='') (set b64chars)"
    by (simp add: b64chars_def)
  have b: "CHR 0x22 \<notin> insert (CHR ''='') (set b64chars)"
    by (simp add: b64chars_def)
  show "CHR ''='' \<in> set (Buffer_toString_base64 randomBytes)"
    unfolding Buffer_toString_base64_def using assms by (intro base64_encode_padded) simp
  show "CHR '';'' \<notin> set (Buffer_toString_base64 randomBytes)"
    unfolding Buffer_toString_base64_def using a base64_encode_chars [of randomBytes] by blast
  show "CHR 0x22 \<notin> set (Buffer_toString_base64 randomBytes)"
    unfolding Buffer_toString_base64_def using b base64_encode_chars [of randomBytes] by blast
qed

subsection \<open>Base58\<close>

lemma nat_of_base58_snoc: "nat_of_base58 (ds @ [d]) = nat_of_base58 ds * 58 + d"
  by (simp add: nat_of_base58_def)

lemma nat_of_base58_digits: "nat_of_base58 (base58_digits n) = n"
proof (induction n rule: base58_digits.induct)
  case (1 n)
  show ?case
  proof (cases "n = 0")
    case True
    then show ?thesis by (subst base58_digits.simps) (simp add: nat_of_base58_def)
  next
    case False
    then have "base58_digits n = base58_digits (n div 58) @ [n mod 58]"
      by (subst base58_digits.simps) simp
    with 1 [OF False] show ?thesis by (simp add: nat_of_base58_snoc)
  qed
qed

lemma base58_digits_bound: "\<forall>d \<in> set (base58_digits n). d < 58"
proof (induction n rule: base58_digits.induct)
  case (1 n)
  show ?case
  proof (cases "n = 0")
    case True
    then show ?thesis by (subst base58_digits.simps) simp
  next
    case False
    then have "base58_digits n = base58_digits (n div 58) @ [n mod 58]"
      by (subst base58_digits.simps) simp
    with 1 [OF False] show ?thesis by simp
  qed
qed

lemma base58_digits_hd: "n \<noteq> 0 \<Longrightarrow> base58_digits n \<noteq> [] \<and> hd (base58_digits n) \<noteq> 0"
proof (induction n rule: base58_digits.induct)
  case (1 n)
  then have eq: "base58_digits n = base58_digits (n div 58) @ [n mod 58]"
    by (subst base58_digits.simps) simp
  show ?case
  proof (cases "n div 58 = 0")
    case True
    then have "base58_digits (n div 58) = []" by (subst base58_digits.simps) simp
    moreover from True 1(2) have "n mod 58 \<noteq> 0" by (metis div_mult_mod_eq add_0 mult_zero_left)
    ultimately show ?thesis using eq by simp
  next
    case False
    with 1(1) [OF 1(2)] eq show ?thesis by simp
  qed
qed

lemma takeWhile_zero_digits:
  "takeWhile (\<lambda>d. d = 0) (replicate z 0 @ base58_digits n) = replicate z (0::nat)"
proof (cases "n = 0")
  case True
  then have "base58_digits n = []" by (subst base58_digits.simps) simp
  then show ?thesis by (simp add: takeWhile_eq_all_conv [THEN iffD2])
next
  case False
  then obtain d ds where "base58_digits n = d # ds" "d \<noteq> 0"
    using base58_digits_hd [of n] by (cases "base58_digits n") auto
  then show ?thesis
    using takeWhile_append2 [of "replicate z 0" "\<lambda>d. d = 0" "d # ds"] by simp
qed

lemma nat_of_base58_zeros: "nat_of_base58 (replicate z 0 @ ds) = nat_of_base58 ds"
  by (induction z) (simp_all add: nat_of_base58_def)

lemma length_b58chars: "length b58chars = 58"
  by (simp add: b58chars_def)

lemma distinct_b58chars: "distinct b58chars"
  by (simp add: b58chars_def)

lemma base58_indices_map:
  "\<forall>d \<in> set ds. d < 58 \<Longrightarrow> base58_indices (map (\<lambda>d. b58chars ! d) ds) = Some ds"
proof (induction ds)
  case Nil
  then show ?case by simp
next
  case (Cons d ds)
  then have "index_from 0 (b58chars ! d) b58chars = Some d"
    using index_from_nth [of b58chars d 0] by (simp add: length_b58chars distinct_b58chars)
  with Cons show ?case by simp
qed

lemma b58_one: "CHR ''1'' = b58chars ! 0"
  by (simp add: b58chars_def)

lemma nat_of_bytes_snoc: "nat_of_bytes (bs @ [b]) = nat_of_bytes bs * 256 + unat b"
  by (simp add: nat_of_bytes_def)

lemma nat_of_bytes_pos: "bs \<noteq> [] \<Longrightarrow> hd bs \<noteq> 0 \<Longrightarrow> 0 < nat_of_bytes bs"
proof (induction bs rule: rev_induct)
  case Nil
  then show ?case by simp
next
  case (snoc b bs)
  show ?case
  proof (cases "bs = []")
    case True
    with snoc.prems have "b \<noteq> 0" by simp
    then have "0 < unat b" by (simp add: unat_gt_0)
    with True show ?thesis by (simp add: nat_of_bytes_def)
  next
    case False
    with snoc have "0 < nat_of_bytes bs" by simp
    then show ?thesis by (simp add: nat_of_bytes_snoc)
  qed
qed

lemma base256_of_bytes:
  "bs = [] \<or> hd bs \<noteq> 0 \<Longrightarrow> base256_bytes (nat_of_bytes bs) = bs"
proof (induction bs rule: rev_induct)
  case Nil
  show ?case by (subst base256_bytes.simps) (simp add: nat_of_bytes_def)
next
  case (snoc b bs)
  let ?n = "nat_of_bytes bs * 256 + unat b"
  from snoc.prems have hd: "hd (bs @ [b]) \<noteq> 0" by simp
  then have "0 < nat_of_bytes (bs @ [b])" by (intro nat_of_bytes_pos) simp_all
  then have n0: "?n \<noteq> 0" by (simp add: nat_of_bytes_snoc)
  have d: "?n div 256 = nat_of_bytes bs" using unat_byte_less [of b] by simp
  have m: "?n mod 256 = unat b" using unat_byte_less [of b] by simp
  have ih: "base256_bytes (nat_of_bytes bs) = bs"
    using snoc.IH hd by (cases bs) simp_all
  have "base256_bytes ?n = base256_bytes (?n div 256) @ [of_nat (?n mod 256)]"
    using n0 by (subst base256_bytes.simps) simp
  then show ?case by (simp only: nat_of_bytes_snoc d m ih byte_of_unat)
qed

lemma bs58_roundtrip: "bs58_decode (bs58_encode source) = Inr source"
proof -
  define z where "z = length (takeWhile (\<lambda>b. b = 0) source)"
  define rest where "rest = dropWhile (\<lambda>b. b = 0) source"
  define n where "n = nat_of_bytes rest"
  have enc: "bs58_encode source = map (\<lambda>d. b58chars ! d) (replicate z 0 @ base58_digits n)"
    by (simp add: bs58_encode_def z_def rest_def n_def Let_def b58_one)
  have bound: "\<forall>d \<in> set (replicate z 0 @ base58_digits n). d < 58"
    using base58_digits_bound [of n] by auto
  have rest: "rest = [] \<or> hd rest \<noteq> 0"
    unfolding rest_def using hd_dropWhile [of "\<lambda>b. b = 0" source] by blast
  have zeros: "replicate z 0 = takeWhile (\<lambda>b. b = 0) source"
    unfolding z_def by (rule replicate_length_same) (meson set_takeWhileD)
  have "base58_indices (bs58_encode source) = Some (replicate z 0 @ base58_digits n)"
    unfolding enc by (rule base58_indices_map [OF bound])
  then have "bs58_decode (bs58_encode source) = Inr (replicate z 0 @ base256_bytes n)"
    by (simp add: bs58_decode_def takeWhile_zero_digits nat_of_base58_zeros
        nat_of_base58_digits)
  also have "\<dots> = Inr source"
  proof -
    have b: "base256_bytes n = rest"
      unfolding n_def by (rule base256_of_bytes [OF rest])
    have "replicate z 0 @ base256_bytes n
        = takeWhile (\<lambda>b. b = 0) source @ dropWhile (\<lambda>b. b = 0) source"
      by (simp only: b zeros rest_def)
    then show ?thesis by simp
  qed
  finally show ?thesis .
qed

lemma b58_nth_in: "d < 58 \<Longrightarrow> b58chars ! d \<in> set b58chars"
  by (simp add: length_b58chars)

lemma bs58_encode_chars: "set (bs58_encode source) \<subseteq> set b58chars"
proof -
  have "CHR ''1'' \<in> set b58chars" by (simp add: b58chars_def)
  then show ?thesis
    using base58_digits_bound b58_nth_in
    by (auto simp: bs58_encode_def Let_def)
qed

lemma bs58_encode_nonempty: "source \<noteq> [] \<Longrightarrow> bs58_encode source \<noteq> []"
proof -
  assume ne: "source \<noteq> []"
  show ?thesis
  proof (cases "hd source = 0")
    case True
    with ne have "takeWhile (\<lambda>b. b = 0) source \<noteq> []" by (cases source) auto
    then show ?thesis by (simp add: bs58_encode_def Let_def)
  next
    case False
    with ne have "dropWhile (\<lambda>b. b = 0) source = source" by (cases source) auto
    moreover have "0 < nat_of_bytes source" using ne False by (rule nat_of_bytes_pos)
    ultimately show ?thesis
      using base58_digits_hd [of "nat_of_bytes source"] by (simp add: bs58_encode_def Let_def)
  qed
qed

subsection \<open>The registry\<close>

lemma ed25519ToJWK_eq:
  "ed25519ToJWK publicKeyBase58 keyId =
     (case bs58_decode publicKeyBase58 of
        Inl err \<Rightarrow> Inl err
      | Inr publicKeyBytes \<Rightarrow>
          Inr \<lparr>jwk_kty = ''OKP'', jwk_kid = keyId, jwk_use = ''sig'', jwk_alg = ''EdDSA'',
               jwk_x = Some (base64url_nopad publicKeyBytes), jwk_n = None, jwk_e = None,
               jwk_crv = Some ''Ed25519''\<rparr>)"
  by (simp add: ed25519ToJWK_def and_then_def base64urlEncode_spec split: sum.splits)

lemma ed25519ToJWK_encoded:
  "ed25519ToJWK (bs58_encode publicKey) keyId =
     Inr \<lparr>jwk_kty = ''OKP'', jwk_kid = keyId, jwk_use = ''sig'', jwk_alg = ''EdDSA'',
          jwk_x = Some (base64url_nopad publicKey), jwk_n = None, jwk_e = None,
          jwk_crv = Some ''Ed25519''\<rparr>"
  by (simp add: ed25519ToJWK_eq bs58_roundtrip)

lemma Map_set_split:
  "Map_set k v m =
     takeWhile (\<lambda>e. fst e \<noteq> k) m @ (k, v) # tl (dropWhile (\<lambda>e. fst e \<noteq> k) m)"
  by (induction m) auto

lemma Map_set_idem: "Map_set k v (Map_set k v m) = Map_set k v m"
  by (induction m) auto

lemma Map_set_new: "k \<notin> fst ` set m \<Longrightarrow> Map_set k v m = m @ [(k, v)]"
  by (induction m) auto

lemma Map_set_overwrite: "Map_set k v' (Map_set k v m) = Map_set k v' m"
  by (induction m) auto

lemma Map_set_keys: "fst ` set (Map_set k v m) = insert k (fst ` set m)"
proof (induction m)
  case Nil
  show ?case by simp
next
  case (Cons e m)
  obtain k' v' where e: "e = (k', v')" by (cases e)
  show ?case
  proof (cases "k' = k")
    case True
    then show ?thesis by (simp add: e)
  next
    case False
    then show ?thesis using Cons.IH by (simp add: e insert_commute)
  qed
qed

lemma getJWKS_eq:
  "getJWKS R =
     Inr (Map_values (Map_set (getKeyId (reg_tapSigner R))
            \<lparr>jwk_kty = ''OKP'', jwk_kid = getKeyId (reg_tapSigner R), jwk_use = ''sig'',
             jwk_alg = ''EdDSA'',
             jwk_x = Some (base64url_nopad (kp_publicKey (signer_keyPair (reg_tapSigner R)))),
             jwk_n = None, jwk_e = None, jwk_crv = Some ''Ed25519''\<rparr>
            (registeredKeys R)),
          R\<lparr>registeredKeys :=
              Map_set (getKeyId (reg_tapSigner R))
                \<lparr>jwk_kty = ''OKP'', jwk_kid = getKeyId (reg_tapSigner R), jwk_use = ''sig'',
                 jwk_alg = ''EdDSA'',
                 jwk_x = Some (base64url_nopad (kp_publicKey (signer_keyPair (reg_tapSigner R)))),
                 jwk_n = None, jwk_e = None, jwk_crv = Some ''Ed25519''\<rparr>
                (registeredKeys R)\<rparr>)"
  by (simp add: getJWKS_def getPublicKey_def ed25519ToJWK_encoded and_then_def Let_def)

lemma rotateKey_eq:
  "rotateKey (Inr result) R newSigner =
     Inr (result,
          R\<lparr>registeredKeys :=
              Map_set (getKeyId newSigner)
                \<lparr>jwk_kty = ''OKP'', jwk_kid = getKeyId newSigner, jwk_use = ''sig'',
                 jwk_alg = ''EdDSA'',
                 jwk_x = Some (base64url_nopad (kp_publicKey (signer_keyPair newSigner))),
                 jwk_n = None, jwk_e = None, jwk_crv = Some ''Ed25519''\<rparr>
                (registeredKeys R),
            reg_tapSigner := newSigner\<rparr>)"
  by (simp add: rotateKey_def getPublicKey_def ed25519ToJWK_encoded and_then_def Let_def)

section \<open>The canonical signature base\<close>

text \<open>
  C2. For every authority, path, created, key id, expires, nonce and tag,
  \<open>createSignatureBase\<close> returns exactly the three canonical lines joined by single
  newlines, every field inserted as it is given, and the result ends in the closing
  quote of the tag, not in a newline.
\<close>

theorem createSignatureBase_canonical:
  "createSignatureBase authority path created keyId expires nonce tag
     = join_lines (canonical_lines authority path created keyId expires nonce tag)
   \<and> last (createSignatureBase authority path created keyId expires nonce tag) = CHR 0x22"
  by (simp add: createSignatureBase_def canonical_lines_def)

section \<open>Signing\<close>

text \<open>
  C4. A signer that holds a 64-byte secret key returns, for every request and every
  clock reading, an envelope whose \<open>Signature-Input\<close> carries \<open>created\<close> and
  \<open>expires = created + 480\<close>, and whose \<open>Signature\<close> is \<open>sig2=:\<close>, the unpadded
  base64url text of the detached signature over the UTF-8 bytes of the canonical base,
  and \<open>:\<close>. The base64url text contains no \<open>=\<close>.
\<close>

theorem signTAPRequest_envelope:
  assumes "length (kp_secretKey (signer_keyPair S)) = 64"
  shows "signTAPRequest N S now req =
      Inr \<lparr>Signature_Input =
             ''sig2=(\"@authority\" \"@path\");created='' @ Number_toString (now div 1000)
             @ '';keyid=\"'' @ getKeyId S
             @ ''\";expires='' @ Number_toString (now div 1000 + 480)
             @ '';nonce=\"'' @ req_nonce req @ ''\";tag=\"'' @ req_tag req @ ''\"'',
           Signature =
             ''sig2=:'' @ base64url_nopad
                (ed_sign N
                   (TextEncoder_encode
                      (createSignatureBase (req_authority req) (req_path req) (now div 1000)
                         (getKeyId S) (now div 1000 + 480) (req_nonce req) (req_tag req)))
                   (kp_secretKey (signer_keyPair S)))
             @ '':''\<rparr>
    \<and> CHR ''='' \<notin> set (base64url_nopad
                (ed_sign N
                   (TextEncoder_encode
                      (createSignatureBase (req_authority req) (req_path req) (now div 1000)
                         (getKeyId S) (now div 1000 + 480) (req_nonce req) (req_tag req)))
                   (kp_secretKey (signer_keyPair S))))"
  by (simp add: signTAPRequest_result [OF assms] signatureInput_of_def getKeyId_def
      eq_notin_base64url)

theorem signTAPRequest_envelope_witness:
  "length (kp_secretKey (signer_keyPair example_signer)) = 64
   \<and> signTAPRequest toy_ed25519 example_signer 1700000000123 example_request =
      Inr \<lparr>Signature_Input =
             ''sig2=(\"@authority\" \"@path\");created=''
             @ Number_toString (1700000000123 div 1000)
             @ '';keyid=\"'' @ getKeyId example_signer
             @ ''\";expires='' @ Number_toString (1700000000123 div 1000 + 480)
             @ '';nonce=\"'' @ req_nonce example_request
             @ ''\";tag=\"'' @ req_tag example_request @ ''\"'',
           Signature =
             ''sig2=:'' @ base64url_nopad
                (ed_sign toy_ed25519
                   (TextEncoder_encode
                      (createSignatureBase (req_authority example_request)
                         (req_path example_request) (1700000000123 div 1000)
                         (getKeyId example_signer) (1700000000123 div 1000 + 480)
                         (req_nonce example_request) (req_tag example_request)))
                   (kp_secretKey (signer_keyPair example_signer)))
             @ '':''\<rparr>"
proof -
  have h: "length (kp_secretKey (signer_keyPair example_signer)) = 64"
    by (simp add: example_signer_def example_keyPair_def)
  from signTAPRequest_envelope [OF h, of toy_ed25519 1700000000123 example_request] h
  show ?thesis by blast
qed

section \<open>Sign and verify\<close>

text \<open>
  C1, as the code has it. \<open>signTAPRequest\<close> does not read the \<open>keyId\<close> of the
  request: it writes the key id of the signer into the \<open>Signature-Input\<close> and into
  the base it signs. Let the signer hold a 64-byte secret key and a 32-byte public key
  that match: every signature made with the secret key has 64 bytes and opens under the
  public key. Then for every request and clock reading \<open>signTAPRequest\<close> returns an
  envelope whose \<open>Signature-Input\<close> carries the signer's key id, and
  \<open>verifySignature\<close>, on any signer instance, given the canonical base rebuilt from
  the request's authority, path, nonce and tag, the signer's key id and the same
  \<open>created\<close> and \<open>expires\<close>, the signature with its wrapper stripped and the public
  key, returns true. With the base rebuilt from the request's own \<open>keyId\<close> the result
  is the check of the signature of one base against another base; it is true when the
  request's \<open>keyId\<close> is the signer's key id, as in the requests the routes build.
\<close>

theorem sign_verify_roundtrip:
  assumes sk: "length (kp_secretKey (signer_keyPair S)) = 64"
      and pk: "length (kp_publicKey (signer_keyPair S)) = 32"
      and correct: "\<forall>msg. length (ed_sign N msg (kp_secretKey (signer_keyPair S))) = 64
                      \<and> ed_open N msg (ed_sign N msg (kp_secretKey (signer_keyPair S)))
                            (kp_publicKey (signer_keyPair S))"
  shows "\<exists>env. signTAPRequest N S now req = Inr env
      \<and> Signature_Input env =
           signatureInput_of (now div 1000) (getKeyId S) (now div 1000 + 480)
             (req_nonce req) (req_tag req)
      \<and> verifySignature N V
           (createSignatureBase (req_authority req) (req_path req) (now div 1000)
              (getKeyId S) (now div 1000 + 480) (req_nonce req) (req_tag req))
           (strip_wrapper (Signature env)) (Some (kp_publicKey (signer_keyPair S))) = Inr True
      \<and> sign_then_verify N S now req =
           Inr (ed_open N
                  (TextEncoder_encode
                     (createSignatureBase (req_authority req) (req_path req) (now div 1000)
                        (req_keyId req) (now div 1000 + 480) (req_nonce req) (req_tag req)))
                  (ed_sign N
                     (TextEncoder_encode
                        (createSignatureBase (req_authority req) (req_path req) (now div 1000)
                           (getKeyId S) (now div 1000 + 480) (req_nonce req) (req_tag req)))
                     (kp_secretKey (signer_keyPair S)))
                  (kp_publicKey (signer_keyPair S)))
      \<and> (req_keyId req = getKeyId S \<longrightarrow>
           verifySignature N V
             (createSignatureBase (req_authority req) (req_path req) (now div 1000)
                (req_keyId req) (now div 1000 + 480) (req_nonce req) (req_tag req))
             (strip_wrapper (Signature env)) (Some (kp_publicKey (signer_keyPair S)))
           = Inr True
           \<and> sign_then_verify N S now req = Inr True)"
  using pk correct
  by (simp add: signTAPRequest_result [OF sk] sign_then_verify_eq [OF sk] verifySignature_eq
      strip_wrapper_wrapped [simplified] base64Url_roundtrip getKeyId_def
      split: sum.splits)

theorem sign_verify_roundtrip_witness:
  "length (kp_secretKey (signer_keyPair example_signer)) = 64
   \<and> length (kp_publicKey (signer_keyPair example_signer)) = 32
   \<and> (\<forall>msg. length (ed_sign toy_ed25519 msg (kp_secretKey (signer_keyPair example_signer))) = 64
          \<and> ed_open toy_ed25519 msg
               (ed_sign toy_ed25519 msg (kp_secretKey (signer_keyPair example_signer)))
               (kp_publicKey (signer_keyPair example_signer)))
   \<and> req_keyId example_request = getKeyId example_signer
   \<and> (\<exists>env. signTAPRequest toy_ed25519 example_signer 1700000000123 example_request = Inr env
        \<and> verifySignature toy_ed25519 example_signer
             (createSignatureBase (req_authority example_request) (req_path example_request)
                (1700000000123 div 1000) (req_keyId example_request)
                (1700000000123 div 1000 + 480) (req_nonce example_request)
                (req_tag example_request))
             (strip_wrapper (Signature env))
             (Some (kp_publicKey (signer_keyPair example_signer))) = Inr True)
   \<and> sign_then_verify toy_ed25519 example_signer 1700000000123 example_request = Inr True"
proof -
  have sk: "length (kp_secretKey (signer_keyPair example_signer)) = 64"
    and pk: "length (kp_publicKey (signer_keyPair example_signer)) = 32"
    and k: "req_keyId example_request = getKeyId example_signer"
    by (simp_all add: example_signer_def example_keyPair_def example_request_def getKeyId_def)
  have c: "\<forall>msg. length (ed_sign toy_ed25519 msg (kp_secretKey (signer_keyPair example_signer))) = 64
          \<and> ed_open toy_ed25519 msg
               (ed_sign toy_ed25519 msg (kp_secretKey (signer_keyPair example_signer)))
               (kp_publicKey (signer_keyPair example_signer))"
    by (rule example_keys_match)
  from sign_verify_roundtrip [OF sk pk c, of 1700000000123 example_request example_signer]
    sk pk c k
  show ?thesis by blast
qed

text \<open>
  C1 as stated fails: for a request whose \<open>keyId\<close> is not the signer's key id, the
  base rebuilt from the fields of the request is not the base that was signed. Under a
  scheme whose signatures depend on the whole message, the signer's keys matching, the
  round trip returns false.
\<close>

theorem sign_verify_keyId_counterexample:
  "length (kp_secretKey (signer_keyPair example_signer)) = 64
   \<and> length (kp_publicKey (signer_keyPair example_signer)) = 32
   \<and> (\<forall>msg. length (ed_sign length_ed25519 msg
                      (kp_secretKey (signer_keyPair example_signer))) = 64
          \<and> ed_open length_ed25519 msg
               (ed_sign length_ed25519 msg (kp_secretKey (signer_keyPair example_signer)))
               (kp_publicKey (signer_keyPair example_signer)))
   \<and> getKeyId example_signer = ''test-key''
   \<and> req_keyId other_request = ''other-key''
   \<and> sign_then_verify length_ed25519 example_signer 1700000000123 other_request = Inr False"
proof -
  have sk: "length (kp_secretKey (signer_keyPair example_signer)) = 64"
    and pk: "length (kp_publicKey (signer_keyPair example_signer)) = 32"
    and k: "getKeyId example_signer = ''test-key''" "req_keyId other_request = ''other-key''"
    by (simp_all add: example_signer_def example_keyPair_def other_request_def getKeyId_def)
  have l: "length (TextEncoder_encode ''other-key'') = 9"
      "length (TextEncoder_encode ''test-key'') = 8"
    by (simp_all add: TextEncoder_encode_def utf8_unit_def)
  have kid: "signer_keyId example_signer = ''test-key''"
    by (simp add: example_signer_def)
  let ?sk = "kp_secretKey (signer_keyPair example_signer)"
  let ?pk = "kp_publicKey (signer_keyPair example_signer)"
  let ?base = "createSignatureBase (req_authority other_request) (req_path other_request)
      (1700000000123 div 1000)"
  let ?rest = "?base [] (1700000000123 div 1000 + 480) (req_nonce other_request)
      (req_tag other_request)"
  let ?signed = "?base ''test-key'' (1700000000123 div 1000 + 480) (req_nonce other_request)
      (req_tag other_request)"
  let ?rebuilt = "?base ''other-key'' (1700000000123 div 1000 + 480) (req_nonce other_request)
      (req_tag other_request)"
  have sgn: "ed_sign length_ed25519 msg ?sk = replicate 32 9 @ replicate 32 (of_nat (length msg))"
    for msg
    by (simp add: length_ed25519_def example_signer_def example_keyPair_def)
  have opn: "ed_open length_ed25519 msg sg ?pk
      \<longleftrightarrow> sg = replicate 32 9 @ replicate 32 (of_nat (length msg))" for msg sg
    by (simp add: length_ed25519_def example_signer_def example_keyPair_def)
  have ls: "length (TextEncoder_encode ?signed) = length (TextEncoder_encode ?rest) + 8"
    and lr: "length (TextEncoder_encode ?rebuilt) = length (TextEncoder_encode ?rest) + 9"
    by (simp_all only: encoded_base_length [of _ _ _ "''other-key''"]
        encoded_base_length [of _ _ _ "''test-key''"] l)
  have "(of_nat (length (TextEncoder_encode ?rebuilt)) :: byte)
      \<noteq> of_nat (length (TextEncoder_encode ?signed))"
    unfolding ls lr by (rule byte_succ_neq)
  then have "\<not> ed_open length_ed25519 (TextEncoder_encode ?rebuilt)
      (ed_sign length_ed25519 (TextEncoder_encode ?signed) ?sk) ?pk"
    unfolding sgn opn by simp
  then have "sign_then_verify length_ed25519 example_signer 1700000000123 other_request
      = Inr False"
    unfolding sign_then_verify_eq [OF sk] k(2) kid by simp
  with sk pk k example_keys_match_length show ?thesis by blast
qed

text \<open>
  C10. With the \<open>publicKey\<close> argument omitted, \<open>verifySignature\<close> does not fail: it
  gives the result it gives for the signer's own public key. So, for a signer whose key
  pair matches, every envelope the signer produced verifies with no explicit key.
\<close>

theorem verify_without_key:
  assumes sk: "length (kp_secretKey (signer_keyPair S)) = 64"
      and pk: "length (kp_publicKey (signer_keyPair S)) = 32"
      and correct: "\<forall>msg. length (ed_sign N msg (kp_secretKey (signer_keyPair S))) = 64
                      \<and> ed_open N msg (ed_sign N msg (kp_secretKey (signer_keyPair S)))
                            (kp_publicKey (signer_keyPair S))"
  shows "verifySignature N S signatureBase signature None
           = verifySignature N S signatureBase signature (Some (kp_publicKey (signer_keyPair S)))
      \<and> (\<exists>env. signTAPRequest N S now req = Inr env
            \<and> verifySignature N S
                 (createSignatureBase (req_authority req) (req_path req) (now div 1000)
                    (getKeyId S) (now div 1000 + 480) (req_nonce req) (req_tag req))
                 (strip_wrapper (Signature env)) None = Inr True)"
  using pk correct
  by (simp add: signTAPRequest_result [OF sk] verifySignature_eq
      strip_wrapper_wrapped [simplified] base64Url_roundtrip getKeyId_def
      split: sum.splits)

theorem verify_without_key_witness:
  "length (kp_secretKey (signer_keyPair example_signer)) = 64
   \<and> length (kp_publicKey (signer_keyPair example_signer)) = 32
   \<and> (\<forall>msg. length (ed_sign toy_ed25519 msg (kp_secretKey (signer_keyPair example_signer))) = 64
          \<and> ed_open toy_ed25519 msg
               (ed_sign toy_ed25519 msg (kp_secretKey (signer_keyPair example_signer)))
               (kp_publicKey (signer_keyPair example_signer)))
   \<and> (\<exists>env. signTAPRequest toy_ed25519 example_signer 1700000000123 example_request = Inr env
        \<and> verifySignature toy_ed25519 example_signer
             (createSignatureBase (req_authority example_request) (req_path example_request)
                (1700000000123 div 1000) (getKeyId example_signer)
                (1700000000123 div 1000 + 480) (req_nonce example_request)
                (req_tag example_request))
             (strip_wrapper (Signature env)) None = Inr True)"
proof -
  have sk: "length (kp_secretKey (signer_keyPair example_signer)) = 64"
    and pk: "length (kp_publicKey (signer_keyPair example_signer)) = 32"
    by (simp_all add: example_signer_def example_keyPair_def)
  have c: "\<forall>msg. length (ed_sign toy_ed25519 msg (kp_secretKey (signer_keyPair example_signer))) = 64
          \<and> ed_open toy_ed25519 msg
               (ed_sign toy_ed25519 msg (kp_secretKey (signer_keyPair example_signer)))
               (kp_publicKey (signer_keyPair example_signer))"
    by (rule example_keys_match)
  from verify_without_key [OF sk pk c, of "[]" "[]" 1700000000123 example_request] sk pk c
  show ?thesis by blast
qed

section \<open>Verification fails closed\<close>

text \<open>
  C3, as the code has it. \<open>verifySignature\<close> strips nothing: it decodes the signature
  text it is given as base64url and returns a boolean for every base, signature text
  and optional key, false when the text does not decode, when the decoded signature is
  not 64 bytes long and when the public key is not 32 bytes long, otherwise the answer
  of the Ed25519 check. So it returns false for every signature that is still in its
  wrapper \<open>sig2=:\<close> ... \<open>:\<close>. The wrapper is stripped by the \<open>/verify\<close> handler
  before the call; stripping the wrapper of \<open>sig2=:b64:\<close> gives \<open>b64\<close>. The handler
  answers every body and throws nothing: status 400 when \<open>signatureInput\<close>,
  \<open>signature\<close>, \<open>authority\<close> or \<open>path\<close> is missing or falsy; when these are truthy,
  \<open>signatureInput\<close> and \<open>signature\<close> are strings, \<open>authority\<close> and \<open>path\<close> convert
  to strings and the key buffer is made, status 200 with \<open>valid\<close> the result of
  \<open>verifySignature\<close> for the stripped signature, false in the cases above; and status
  500 when \<open>signatureInput\<close> or \<open>signature\<close> is truthy and not a string, or a
  conversion or the making of the key buffer throws.
\<close>

theorem verify_fails_closed:
  "verifySignature N S signatureBase signature' publicKey =
          Inr (case base64UrlDecode signature' of
                 Inl err \<Rightarrow> False
               | Inr sigBytes \<Rightarrow>
                   length sigBytes = 64
                   \<and> length (case publicKey of
                                Some k \<Rightarrow> k | None \<Rightarrow> kp_publicKey (signer_keyPair S)) = 32
                   \<and> ed_open N (TextEncoder_encode signatureBase) sigBytes
                        (case publicKey of
                           Some k \<Rightarrow> k | None \<Rightarrow> kp_publicKey (signer_keyPair S)))
   \<and> verifySignature N S signatureBase (''sig2=:'' @ b64 @ '':'') publicKey = Inr False
   \<and> strip_wrapper (''sig2=:'' @ b64 @ '':'') = b64
   \<and> (\<not> js_truthy (body_signatureInput body) \<or> \<not> js_truthy (body_signature body)
        \<or> \<not> js_truthy (body_authority body) \<or> \<not> js_truthy (body_path body)
      \<longrightarrow> verify_route N Buffer_from S body = Status400)
   \<and> (js_truthy (body_signatureInput body) \<and> js_truthy (body_signature body)
        \<and> js_truthy (body_authority body) \<and> js_truthy (body_path body)
        \<and> body_signatureInput body = JString signatureInput
        \<and> body_signature body = JString signature
        \<and> js_toString (body_authority body) = Inr authority
        \<and> js_toString (body_path body) = Inr path
        \<and> (if js_truthy (body_publicKey body) then Buffer_from (body_publicKey body)
            else Buffer_from (JString (getPublicKey S))) = Inr pubKeyBytes
      \<longrightarrow> (\<exists>params. parseSignatureInput signatureInput = Inr params
             \<and> verify_route N Buffer_from S body =
                 Status200
                   \<lparr>res_valid =
                      (case base64UrlDecode (strip_wrapper signature) of
                         Inl err \<Rightarrow> False
                       | Inr sigBytes \<Rightarrow>
                           length sigBytes = 64 \<and> length pubKeyBytes = 32
                           \<and> ed_open N
                                (TextEncoder_encode
                                   (routes_createSignatureBase authority path params))
                                sigBytes pubKeyBytes),
                    res_keyId = params ''keyid'', res_timestamp = params ''created'',
                    res_expires = params ''expires''\<rparr>))
   \<and> (js_truthy (body_signatureInput body) \<and> js_truthy (body_signature body)
        \<and> js_truthy (body_authority body) \<and> js_truthy (body_path body)
        \<and> (string_receiver (body_signatureInput body) = Inl e
            \<or> js_toString (body_authority body) = Inl e
            \<or> js_toString (body_path body) = Inl e
            \<or> (if js_truthy (body_publicKey body) then Buffer_from (body_publicKey body)
                else Buffer_from (JString (getPublicKey S))) = Inl e
            \<or> string_receiver (body_signature body) = Inl e)
      \<longrightarrow> verify_route N Buffer_from S body = Status500)"
proof -
  have c200: "\<exists>params. parseSignatureInput signatureInput = Inr params
             \<and> verify_route N Buffer_from S body =
                 Status200
                   \<lparr>res_valid =
                      (case base64UrlDecode (strip_wrapper signature) of
                         Inl err \<Rightarrow> False
                       | Inr sigBytes \<Rightarrow>
                           length sigBytes = 64 \<and> length pubKeyBytes = 32
                           \<and> ed_open N
                                (TextEncoder_encode
                                   (routes_createSignatureBase authority path params))
                                sigBytes pubKeyBytes),
                    res_keyId = params ''keyid'', res_timestamp = params ''created'',
                    res_expires = params ''expires''\<rparr>"
    if h: "js_truthy (body_signatureInput body)" "js_truthy (body_signature body)"
        "js_truthy (body_authority body)" "js_truthy (body_path body)"
        "body_signatureInput body = JString signatureInput"
        "body_signature body = JString signature"
        "js_toString (body_authority body) = Inr authority"
        "js_toString (body_path body) = Inr path"
        "(if js_truthy (body_publicKey body) then Buffer_from (body_publicKey body)
          else Buffer_from (JString (getPublicKey S))) = Inr pubKeyBytes"
  proof -
    obtain params where p: "parseSignatureInput signatureInput = Inr params"
      using parseSignatureInput_total by blast
    from verify_route_200 [OF h p] p show ?thesis by blast
  qed
  have c500: "verify_route N Buffer_from S body = Status500"
    if "js_truthy (body_signatureInput body)" "js_truthy (body_signature body)"
        "js_truthy (body_authority body)" "js_truthy (body_path body)"
        "string_receiver (body_signatureInput body) = Inl e
            \<or> js_toString (body_authority body) = Inl e
            \<or> js_toString (body_path body) = Inl e
            \<or> (if js_truthy (body_publicKey body) then Buffer_from (body_publicKey body)
                else Buffer_from (JString (getPublicKey S))) = Inl e
            \<or> string_receiver (body_signature body) = Inl e"
    using that by (rule verify_route_500)
  have c400: "verify_route N Buffer_from S body = Status400"
    if "\<not> js_truthy (body_signatureInput body) \<or> \<not> js_truthy (body_signature body)
        \<or> \<not> js_truthy (body_authority body) \<or> \<not> js_truthy (body_path body)"
    using that by (rule verify_route_400)
  note v = verifySignature_eq [of N S signatureBase signature' publicKey]
    verifySignature_wrapped [of N S signatureBase b64 publicKey]
    strip_wrapper_wrapped [of b64]
  from v c400 c200 c500 show ?thesis by blast
qed

theorem verify_fails_closed_witness:
  "\<not> js_truthy (body_signature (example_body\<lparr>body_signature := js_undefined\<rparr>))
   \<and> verify_route toy_ed25519 example_Buffer_from example_signer
        (example_body\<lparr>body_signature := js_undefined\<rparr>) = Status400
   \<and> js_truthy (body_signatureInput example_body) \<and> js_truthy (body_signature example_body)
   \<and> js_truthy (body_authority example_body) \<and> js_truthy (body_path example_body)
   \<and> body_signature example_body = JString ''sig2=:AAAA:''
   \<and> example_Buffer_from (body_publicKey example_body) = Inr (replicate 32 9)
   \<and> (\<exists>params. parseSignatureInput
                  ''sig2=(\"@authority\" \"@path\");created=1700000000'' = Inr params
        \<and> verify_route toy_ed25519 example_Buffer_from example_signer example_body =
            Status200
              \<lparr>res_valid =
                 (case base64UrlDecode (strip_wrapper ''sig2=:AAAA:'') of
                    Inl err \<Rightarrow> False
                  | Inr sigBytes \<Rightarrow>
                      length sigBytes = 64 \<and> length (replicate 32 (9 :: byte)) = 32
                      \<and> ed_open toy_ed25519
                           (TextEncoder_encode
                              (routes_createSignatureBase ''merchant.example'' ''/checkout''
                                 params))
                           sigBytes (replicate 32 9)),
               res_keyId = params ''keyid'', res_timestamp = params ''created'',
               res_expires = params ''expires''\<rparr>)
   \<and> js_truthy (body_signature (example_body\<lparr>body_signature := JOther True (Inr ''5'')\<rparr>))
   \<and> string_receiver
        (body_signature (example_body\<lparr>body_signature := JOther True (Inr ''5'')\<rparr>))
      = Inl TypeError
   \<and> verify_route toy_ed25519 example_Buffer_from example_signer
        (example_body\<lparr>body_signature := JOther True (Inr ''5'')\<rparr>) = Status500"
proof -
  let ?b4 = "example_body\<lparr>body_signature := js_undefined\<rparr>"
  let ?b5 = "example_body\<lparr>body_signature := JOther True (Inr ''5'')\<rparr>"
  note t4 = verify_fails_closed [where N = toy_ed25519 and S = example_signer and body = ?b4
      and Buffer_from = example_Buffer_from]
  note t2 = verify_fails_closed [where N = toy_ed25519 and S = example_signer
      and body = example_body and Buffer_from = example_Buffer_from
      and signatureInput = "''sig2=(\"@authority\" \"@path\");created=1700000000''"
      and signature = "''sig2=:AAAA:''" and authority = "''merchant.example''"
      and path = "''/checkout''" and pubKeyBytes = "replicate 32 9"]
  note t5 = verify_fails_closed [where N = toy_ed25519 and S = example_signer and body = ?b5
      and Buffer_from = example_Buffer_from and e = TypeError]
  have h4: "\<not> js_truthy (body_signature ?b4)"
    by (simp add: js_truthy_def js_undefined_def)
  have w4: "verify_route toy_ed25519 example_Buffer_from example_signer ?b4 = Status400"
    using t4 [THEN conjunct2, THEN conjunct2, THEN conjunct2, THEN conjunct1] h4 by blast
  have h2: "js_truthy (body_signatureInput example_body)"
      "js_truthy (body_signature example_body)"
      "js_truthy (body_authority example_body)" "js_truthy (body_path example_body)"
      "body_signatureInput example_body
         = JString ''sig2=(\"@authority\" \"@path\");created=1700000000''"
      "body_signature example_body = JString ''sig2=:AAAA:''"
      "js_toString (body_authority example_body) = Inr ''merchant.example''"
      "js_toString (body_path example_body) = Inr ''/checkout''"
      "(if js_truthy (body_publicKey example_body)
        then example_Buffer_from (body_publicKey example_body)
        else example_Buffer_from (JString (getPublicKey example_signer)))
       = Inr (replicate 32 9)"
      "example_Buffer_from (body_publicKey example_body) = Inr (replicate 32 9)"
    by (simp_all add: example_body_def js_truthy_def js_toString_def example_Buffer_from_def)
  have w2: "\<exists>params. parseSignatureInput
                  ''sig2=(\"@authority\" \"@path\");created=1700000000'' = Inr params
        \<and> verify_route toy_ed25519 example_Buffer_from example_signer example_body =
            Status200
              \<lparr>res_valid =
                 (case base64UrlDecode (strip_wrapper ''sig2=:AAAA:'') of
                    Inl err \<Rightarrow> False
                  | Inr sigBytes \<Rightarrow>
                      length sigBytes = 64 \<and> length (replicate 32 (9 :: byte)) = 32
                      \<and> ed_open toy_ed25519
                           (TextEncoder_encode
                              (routes_createSignatureBase ''merchant.example'' ''/checkout''
                                 params))
                           sigBytes (replicate 32 9)),
               res_keyId = params ''keyid'', res_timestamp = params ''created'',
               res_expires = params ''expires''\<rparr>"
    using t2 [THEN conjunct2, THEN conjunct2, THEN conjunct2, THEN conjunct2, THEN conjunct1]
      h2(1-9)
    by blast
  have h5: "js_truthy (body_signatureInput ?b5)" "js_truthy (body_signature ?b5)"
      "js_truthy (body_authority ?b5)" "js_truthy (body_path ?b5)"
      "string_receiver (body_signature ?b5) = Inl TypeError"
    by (simp_all add: example_body_def js_truthy_def string_receiver_def)
  have w5: "verify_route toy_ed25519 example_Buffer_from example_signer ?b5 = Status500"
    using t5 [THEN conjunct2, THEN conjunct2, THEN conjunct2, THEN conjunct2, THEN conjunct2]
      h5
    by blast
  from h4 w4 h2(1-4) h2(6) h2(10) w2 h5(2) h5(5) w5 show ?thesis by blast
qed

text \<open>
  C3 as stated fails. \<open>verifySignature\<close> does not strip the wrapper: the signature of
  an envelope, handed over as the signer made it, is answered with false, and with true
  once the caller has stripped the wrapper. And the handler that strips the wrapper
  does not answer a malformed signature with false: for a signature that is the number
  5 the call of \<open>replace\<close> throws and the answer is status 500.
\<close>

theorem verify_strip_counterexample:
  "(\<exists>env. signTAPRequest toy_ed25519 example_signer 1700000000123 example_request = Inr env
      \<and> verifySignature toy_ed25519 example_signer
           (createSignatureBase (req_authority example_request) (req_path example_request)
              (1700000000123 div 1000) (getKeyId example_signer)
              (1700000000123 div 1000 + 480) (req_nonce example_request)
              (req_tag example_request))
           (Signature env) (Some (kp_publicKey (signer_keyPair example_signer))) = Inr False
      \<and> verifySignature toy_ed25519 example_signer
           (createSignatureBase (req_authority example_request) (req_path example_request)
              (1700000000123 div 1000) (getKeyId example_signer)
              (1700000000123 div 1000 + 480) (req_nonce example_request)
              (req_tag example_request))
           (strip_wrapper (Signature env))
           (Some (kp_publicKey (signer_keyPair example_signer))) = Inr True)
   \<and> verify_route toy_ed25519 example_Buffer_from example_signer
        (example_body\<lparr>body_signature := JOther True (Inr ''5'')\<rparr>) = Status500"
proof -
  have sk: "length (kp_secretKey (signer_keyPair example_signer)) = 64"
    and pk: "length (kp_publicKey (signer_keyPair example_signer)) = 32"
    by (simp_all add: example_signer_def example_keyPair_def)
  have first: "\<exists>env. signTAPRequest toy_ed25519 example_signer 1700000000123 example_request
        = Inr env
      \<and> verifySignature toy_ed25519 example_signer
           (createSignatureBase (req_authority example_request) (req_path example_request)
              (1700000000123 div 1000) (getKeyId example_signer)
              (1700000000123 div 1000 + 480) (req_nonce example_request)
              (req_tag example_request))
           (Signature env) (Some (kp_publicKey (signer_keyPair example_signer))) = Inr False
      \<and> verifySignature toy_ed25519 example_signer
           (createSignatureBase (req_authority example_request) (req_path example_request)
              (1700000000123 div 1000) (getKeyId example_signer)
              (1700000000123 div 1000 + 480) (req_nonce example_request)
              (req_tag example_request))
           (strip_wrapper (Signature env))
           (Some (kp_publicKey (signer_keyPair example_signer))) = Inr True"
    using pk example_keys_match
    by (simp add: signTAPRequest_result [OF sk] verifySignature_wrapped [simplified]
        verifySignature_eq [of _ _ _ "base64url_nopad _"]
        strip_wrapper_wrapped [simplified] base64Url_roundtrip getKeyId_def
        split: sum.splits)
  let ?b5 = "example_body\<lparr>body_signature := JOther True (Inr ''5'')\<rparr>"
  have "js_truthy (body_signatureInput ?b5)" "js_truthy (body_signature ?b5)"
      "js_truthy (body_authority ?b5)" "js_truthy (body_path ?b5)"
      "string_receiver (body_signature ?b5) = Inl TypeError"
    by (simp_all add: example_body_def js_truthy_def string_receiver_def)
  then have "verify_route toy_ed25519 example_Buffer_from example_signer ?b5 = Status500"
    by (intro verify_route_500 [where err = TypeError]) blast+
  with first show ?thesis by blast
qed

section \<open>The two base builders\<close>

text \<open>
  C5. Both builders are functions of their arguments alone. Whenever the parameters
  hold the decimal text of \<open>created\<close> and \<open>expires\<close> and the key id, nonce and tag,
  whatever characters these values contain, the route's base builder returns the very
  string the signer's builder returns for the same values. For every parameter object
  the route's builder writes the three canonical lines with the fields in the one fixed
  order \<open>created\<close>, \<open>keyid\<close>, \<open>expires\<close>, \<open>nonce\<close>, \<open>tag\<close>. The order of the
  parameters in a received \<open>Signature-Input\<close> does not matter: two lists of well-formed
  parameters with distinct names that hold the same parameters, written out with \<open>;\<close>
  between the parameters, parse to the same parameters. In particular, when the key id,
  nonce and tag contain none of \<open>;\<close>, \<open>=\<close> and the double quote, the route rebuilds
  the signer's base from any reordering of the signer's parameter list.
\<close>

theorem base_builders_agree:
  "(params ''created'' = Some (Number_toString created)
      \<and> params ''keyid'' = Some keyId
      \<and> params ''expires'' = Some (Number_toString expires)
      \<and> params ''nonce'' = Some nonce
      \<and> params ''tag'' = Some tag
      \<longrightarrow> routes_createSignatureBase authority path params
            = createSignatureBase authority path created keyId expires nonce tag)
   \<and> routes_createSignatureBase authority path params
       = join_lines
           [''\"@authority\": '' @ authority,
            ''\"@path\": '' @ path,
            ''\"@signature-params\": sig2=(\"@authority\" \"@path\");created=''
              @ read_prop params ''created'' @ '';keyid=\"'' @ read_prop params ''keyid''
              @ ''\";expires='' @ read_prop params ''expires''
              @ '';nonce=\"'' @ read_prop params ''nonce''
              @ ''\";tag=\"'' @ read_prop params ''tag'' @ ''\"'']
   \<and> (list_all wf_param received
        \<and> set received' = set received
        \<and> distinct (map fst received)
        \<and> distinct (map fst received')
      \<longrightarrow> (\<exists>ps. parseSignatureInput (render_params received) = Inr ps
              \<and> parseSignatureInput (render_params received') = Inr ps))
   \<and> (CHR '';'' \<notin> set (keyId @ nonce @ tag)
        \<and> CHR ''='' \<notin> set (keyId @ nonce @ tag)
        \<and> CHR 0x22 \<notin> set (keyId @ nonce @ tag)
        \<and> set sent = set (signature_params created keyId expires nonce tag)
        \<and> distinct (map fst sent)
      \<longrightarrow> (\<exists>ps. parseSignatureInput (render_params sent) = Inr ps
              \<and> routes_createSignatureBase authority path ps
                  = createSignatureBase authority path created keyId expires nonce tag))"
proof -
  let ?sp = "signature_params created keyId expires nonce tag"
  have first: "params ''created'' = Some (Number_toString created)
      \<and> params ''keyid'' = Some keyId
      \<and> params ''expires'' = Some (Number_toString expires)
      \<and> params ''nonce'' = Some nonce
      \<and> params ''tag'' = Some tag
      \<longrightarrow> routes_createSignatureBase authority path params
            = createSignatureBase authority path created keyId expires nonce tag"
    using routes_base_of_lookups [of params created keyId expires nonce tag authority path]
    by blast
  have order: "routes_createSignatureBase authority path params
       = join_lines
           [''\"@authority\": '' @ authority,
            ''\"@path\": '' @ path,
            ''\"@signature-params\": sig2=(\"@authority\" \"@path\");created=''
              @ read_prop params ''created'' @ '';keyid=\"'' @ read_prop params ''keyid''
              @ ''\";expires='' @ read_prop params ''expires''
              @ '';nonce=\"'' @ read_prop params ''nonce''
              @ ''\";tag=\"'' @ read_prop params ''tag'' @ ''\"'']"
    by (simp add: routes_createSignatureBase_def)
  have second: "\<exists>ps. parseSignatureInput (render_params received) = Inr ps
            \<and> parseSignatureInput (render_params received') = Inr ps"
    if any_order: "list_all wf_param received" "set received' = set received"
      "distinct (map fst received)" "distinct (map fst received')"
  proof -
    have wfr: "list_all wf_param received'"
      using any_order(1,2) by (simp add: list_all_iff)
    have "store_all Map.empty received' = store_all Map.empty received"
      using any_order by (intro store_all_perm)
    then show ?thesis
      using parse_render [OF any_order(1)] parse_render [OF wfr] by simp
  qed
  have third: "\<exists>ps. parseSignatureInput (render_params sent) = Inr ps
            \<and> routes_createSignatureBase authority path ps
                = createSignatureBase authority path created keyId expires nonce tag"
    if clean: "CHR '';'' \<notin> set (keyId @ nonce @ tag)"
        "CHR ''='' \<notin> set (keyId @ nonce @ tag)"
        "CHR 0x22 \<notin> set (keyId @ nonce @ tag)"
      and reordered: "set sent = set ?sp" "distinct (map fst sent)"
  proof -
    from clean have c: "CHR '';'' \<notin> set keyId" "CHR '';'' \<notin> set nonce" "CHR '';'' \<notin> set tag"
        "CHR ''='' \<notin> set keyId" "CHR 0x22 \<notin> set keyId"
        "CHR ''='' \<notin> set nonce" "CHR 0x22 \<notin> set nonce"
        "CHR ''='' \<notin> set tag" "CHR 0x22 \<notin> set tag"
      by simp_all
    have wf: "list_all wf_param ?sp" using c by (intro signature_params_wf)
    then have wf': "list_all wf_param sent"
      using reordered(1) by (simp add: list_all_iff)
    have d: "distinct (map fst ?sp)" by (simp add: signature_params_keys)
    have "store_all Map.empty sent = store_all Map.empty ?sp"
      using d reordered by (intro store_all_perm)
    then have p: "parseSignatureInput (render_params sent) = Inr (store_all Map.empty ?sp)"
      using parse_render [OF wf'] by simp
    have "routes_createSignatureBase authority path (store_all Map.empty ?sp)
        = createSignatureBase authority path created keyId expires nonce tag"
      using c by (intro routes_base_of_lookups signature_params_lookups)
    with p show ?thesis by blast
  qed
  from first order second third show ?thesis by blast
qed

theorem base_builders_agree_witness:
  "[''created'' \<mapsto> Number_toString 1700000000, ''keyid'' \<mapsto> ''test;key'',
    ''expires'' \<mapsto> Number_toString 1700000480, ''nonce'' \<mapsto> ''q83vEjRWeJA=='',
    ''tag'' \<mapsto> ''agent\"payer'']
      ''nonce'' = Some ''q83vEjRWeJA==''
   \<and> routes_createSignatureBase ''merchant.example'' ''/checkout''
        [''created'' \<mapsto> Number_toString 1700000000, ''keyid'' \<mapsto> ''test;key'',
         ''expires'' \<mapsto> Number_toString 1700000480, ''nonce'' \<mapsto> ''q83vEjRWeJA=='',
         ''tag'' \<mapsto> ''agent\"payer'']
      = createSignatureBase ''merchant.example'' ''/checkout'' 1700000000 ''test;key''
          1700000480 ''q83vEjRWeJA=='' ''agent\"payer''
   \<and> list_all wf_param [(''nonce'', ''\"q83vEjRWeJA==\"''), (''tag'', ''\"agent-payer-auth\"'')]
   \<and> (\<exists>ps. parseSignatureInput (render_params
          [(''nonce'', ''\"q83vEjRWeJA==\"''), (''tag'', ''\"agent-payer-auth\"'')]) = Inr ps
        \<and> parseSignatureInput (render_params
          [(''tag'', ''\"agent-payer-auth\"''), (''nonce'', ''\"q83vEjRWeJA==\"'')]) = Inr ps)
   \<and> CHR '';'' \<notin> set (''test-key'' @ ''AAAA'' @ ''agent-payer-auth'')
   \<and> CHR ''='' \<notin> set (''test-key'' @ ''AAAA'' @ ''agent-payer-auth'')
   \<and> CHR 0x22 \<notin> set (''test-key'' @ ''AAAA'' @ ''agent-payer-auth'')
   \<and> set (rev (signature_params 1700000000 ''test-key'' 1700000480 ''AAAA'' ''agent-payer-auth''))
      = set (signature_params 1700000000 ''test-key'' 1700000480 ''AAAA'' ''agent-payer-auth'')
   \<and> distinct (map fst
        (rev (signature_params 1700000000 ''test-key'' 1700000480 ''AAAA'' ''agent-payer-auth'')))
   \<and> (\<exists>ps. parseSignatureInput (render_params
          (rev (signature_params 1700000000 ''test-key'' 1700000480 ''AAAA''
                 ''agent-payer-auth''))) = Inr ps
        \<and> routes_createSignatureBase ''merchant.example'' ''/checkout'' ps
           = createSignatureBase ''merchant.example'' ''/checkout'' 1700000000 ''test-key''
               1700000480 ''AAAA'' ''agent-payer-auth'')"
proof -
  let ?params = "[''created'' \<mapsto> Number_toString 1700000000, ''keyid'' \<mapsto> ''test;key'',
         ''expires'' \<mapsto> Number_toString 1700000480, ''nonce'' \<mapsto> ''q83vEjRWeJA=='',
         ''tag'' \<mapsto> ''agent\"payer'']"
  let ?sp = "signature_params 1700000000 ''test-key'' 1700000480 ''AAAA'' ''agent-payer-auth''"
  let ?r = "[(''nonce'', ''\"q83vEjRWeJA==\"''), (''tag'', ''\"agent-payer-auth\"'')]"
  let ?r' = "[(''tag'', ''\"agent-payer-auth\"''), (''nonce'', ''\"q83vEjRWeJA==\"'')]"
  have l: "?params ''created'' = Some (Number_toString 1700000000)
      \<and> ?params ''keyid'' = Some ''test;key''
      \<and> ?params ''expires'' = Some (Number_toString 1700000480)
      \<and> ?params ''nonce'' = Some ''q83vEjRWeJA==''
      \<and> ?params ''tag'' = Some ''agent\"payer''"
    by simp
  have o: "list_all wf_param ?r \<and> set ?r' = set ?r \<and> distinct (map fst ?r)
      \<and> distinct (map fst ?r')"
    by (auto simp: wf_param_def is_word_char_def)
  have c: "CHR '';'' \<notin> set (''test-key'' @ ''AAAA'' @ ''agent-payer-auth'')
      \<and> CHR ''='' \<notin> set (''test-key'' @ ''AAAA'' @ ''agent-payer-auth'')
      \<and> CHR 0x22 \<notin> set (''test-key'' @ ''AAAA'' @ ''agent-payer-auth'')"
    by simp
  have r: "set (rev ?sp) = set ?sp" by simp
  have d: "distinct (map fst (rev ?sp))"
    by (simp add: rev_map [symmetric] signature_params_keys)
  note t1 = base_builders_agree [of ?params 1700000000 "''test;key''" 1700000480
      "''q83vEjRWeJA==''" "''agent\"payer''" "''merchant.example''" "''/checkout''" ?r ?r' "[]"]
  note t2 = base_builders_agree [of Map.empty 1700000000 "''test-key''" 1700000480
      "''AAAA''" "''agent-payer-auth''" "''merchant.example''" "''/checkout''" "[]" "[]"
      "rev ?sp"]
  have a1: "routes_createSignatureBase ''merchant.example'' ''/checkout'' ?params
      = createSignatureBase ''merchant.example'' ''/checkout'' 1700000000 ''test;key''
          1700000480 ''q83vEjRWeJA=='' ''agent\"payer''"
    by (rule t1 [THEN conjunct1, THEN mp, OF l])
  have a2: "\<exists>ps. parseSignatureInput (render_params ?r) = Inr ps
        \<and> parseSignatureInput (render_params ?r') = Inr ps"
    by (rule t1 [THEN conjunct2, THEN conjunct2, THEN conjunct1, THEN mp, OF o])
  have a3: "\<exists>ps. parseSignatureInput (render_params (rev ?sp)) = Inr ps
        \<and> routes_createSignatureBase ''merchant.example'' ''/checkout'' ps
           = createSignatureBase ''merchant.example'' ''/checkout'' 1700000000 ''test-key''
               1700000480 ''AAAA'' ''agent-payer-auth''"
    using c r d by (intro t2 [THEN conjunct2, THEN conjunct2, THEN conjunct2, THEN mp]) blast
  from l o have l': "?params ''nonce'' = Some ''q83vEjRWeJA==''" and o': "list_all wf_param ?r"
    by blast+
  from l' a1 o' a2 c r d a3 show ?thesis by blast
qed

section \<open>Parsing a nonce that contains \<open>=\<close>\<close>

text \<open>
  C9. Take the \<open>Signature-Input\<close> the signer writes for a key id free of \<open>;\<close>, \<open>=\<close>
  and the double quote, a nonce free of \<open>;\<close> and the double quote and a tag free of
  \<open>;\<close>. When the nonce contains \<open>=\<close>, \<open>parseSignatureInput\<close> returns parameters whose
  nonce is the nonce cut off at its first \<open>=\<close>, which is not the nonce, and the base the
  route rebuilds from them differs from the base that was signed. Every nonce of the
  \<open>/sign\<close> and \<open>/purchase\<close> routes, the padded base64 text of 64 bytes, is such a
  nonce: it contains \<open>=\<close> and neither \<open>;\<close> nor the double quote.
\<close>

theorem nonce_truncated:
  assumes wf: "CHR '';'' \<notin> set keyId" "CHR ''='' \<notin> set keyId" "CHR 0x22 \<notin> set keyId"
              "CHR '';'' \<notin> set nonce" "CHR 0x22 \<notin> set nonce" "CHR '';'' \<notin> set tag"
      and eq: "CHR ''='' \<in> set nonce"
  shows "\<exists>params. parseSignatureInput (signatureInput_of created keyId expires nonce tag) = Inr params
      \<and> params ''nonce'' = Some (takeWhile (\<lambda>x. x \<noteq> CHR ''='') nonce)
      \<and> takeWhile (\<lambda>x. x \<noteq> CHR ''='') nonce \<noteq> nonce
      \<and> routes_createSignatureBase authority path params
          \<noteq> createSignatureBase authority path created keyId expires nonce tag
      \<and> (length randomBytes = 64 \<longrightarrow>
            CHR ''='' \<in> set (Buffer_toString_base64 randomBytes)
          \<and> CHR '';'' \<notin> set (Buffer_toString_base64 randomBytes)
          \<and> CHR 0x22 \<notin> set (Buffer_toString_base64 randomBytes))"
proof -
  define params where
    "params = store_all Map.empty (signature_params created keyId expires nonce tag)"
  define n' where "n' = takeWhile (\<lambda>x. x \<noteq> CHR ''='') nonce"
  have p: "parseSignatureInput (signatureInput_of created keyId expires nonce tag) = Inr params"
    unfolding params_def using wf by (intro parse_signatureInput)
  have look: "params ''created'' = Some (Number_toString created)"
      "params ''keyid'' = Some keyId"
      "params ''expires'' = Some (Number_toString expires)"
      "params ''nonce'' = Some n'"
  proof -
    from wf have "takeWhile (\<lambda>x. x \<noteq> CHR ''='') keyId = keyId"
      by (auto simp: takeWhile_eq_all_conv)
    with wf show "params ''created'' = Some (Number_toString created)"
      "params ''keyid'' = Some keyId"
      "params ''expires'' = Some (Number_toString expires)"
      "params ''nonce'' = Some n'"
      unfolding params_def n'_def signature_params_def
      by (simp_all add: param_value_plain Number_toString_wf param_value_quoted)
  qed
  have "dropWhile (\<lambda>x. x \<noteq> CHR ''='') nonce \<noteq> []"
    using eq by (auto simp: dropWhile_eq_Nil_conv)
  then obtain d r where dr: "dropWhile (\<lambda>x. x \<noteq> CHR ''='') nonce = d # r"
    by (cases "dropWhile (\<lambda>x. x \<noteq> CHR ''='') nonce") auto
  then have "d = CHR ''=''"
    using hd_dropWhile [of "\<lambda>x. x \<noteq> CHR ''=''" nonce] by auto
  with dr have split: "nonce = n' @ CHR ''='' # r"
    unfolding n'_def using takeWhile_dropWhile_id [of "\<lambda>x. x \<noteq> CHR ''=''" nonce] by simp
  then have ne: "n' \<noteq> nonce" by auto
  have "routes_createSignatureBase authority path params
          \<noteq> createSignatureBase authority path created keyId expires (n' @ CHR ''='' # r) tag"
    by (simp add: routes_createSignatureBase_def createSignatureBase_def read_prop_def look)
  with p look ne split have "\<exists>params.
        parseSignatureInput (signatureInput_of created keyId expires nonce tag) = Inr params
      \<and> params ''nonce'' = Some (takeWhile (\<lambda>x. x \<noteq> CHR ''='') nonce)
      \<and> takeWhile (\<lambda>x. x \<noteq> CHR ''='') nonce \<noteq> nonce
      \<and> routes_createSignatureBase authority path params
          \<noteq> createSignatureBase authority path created keyId expires nonce tag"
    unfolding n'_def by auto
  then show ?thesis using route_nonce_chars [of randomBytes] by blast
qed

theorem nonce_truncated_witness:
  "CHR '';'' \<notin> set ''test-key'' \<and> CHR ''='' \<notin> set ''test-key'' \<and> CHR 0x22 \<notin> set ''test-key''
   \<and> CHR '';'' \<notin> set ''q83vEjRWeJA=='' \<and> CHR 0x22 \<notin> set ''q83vEjRWeJA==''
   \<and> CHR '';'' \<notin> set ''agent-payer-auth'' \<and> CHR ''='' \<in> set ''q83vEjRWeJA==''
   \<and> length (replicate 64 (0 :: byte)) = 64
   \<and> CHR ''='' \<in> set (Buffer_toString_base64 (replicate 64 0))
   \<and> CHR '';'' \<notin> set (Buffer_toString_base64 (replicate 64 0))
   \<and> CHR 0x22 \<notin> set (Buffer_toString_base64 (replicate 64 0))
   \<and> (\<exists>params. parseSignatureInput
          (signatureInput_of 1700000000 ''test-key'' 1700000480 ''q83vEjRWeJA==''
             ''agent-payer-auth'') = Inr params
        \<and> params ''nonce'' = Some (takeWhile (\<lambda>x. x \<noteq> CHR ''='') ''q83vEjRWeJA=='')
        \<and> takeWhile (\<lambda>x. x \<noteq> CHR ''='') ''q83vEjRWeJA=='' \<noteq> ''q83vEjRWeJA==''
        \<and> routes_createSignatureBase ''merchant.example'' ''/checkout'' params
            \<noteq> createSignatureBase ''merchant.example'' ''/checkout'' 1700000000 ''test-key''
                1700000480 ''q83vEjRWeJA=='' ''agent-payer-auth'')"
proof -
  have h: "CHR '';'' \<notin> set ''test-key''" "CHR ''='' \<notin> set ''test-key''"
      "CHR 0x22 \<notin> set ''test-key''"
      "CHR '';'' \<notin> set ''q83vEjRWeJA==''" "CHR 0x22 \<notin> set ''q83vEjRWeJA==''"
      "CHR '';'' \<notin> set ''agent-payer-auth''" "CHR ''='' \<in> set ''q83vEjRWeJA==''"
    by simp_all
  have l: "length (replicate 64 (0 :: byte)) = 64" by simp
  from nonce_truncated [OF h, of 1700000000 1700000480 "''merchant.example''" "''/checkout''"
      "replicate 64 0"] h l
  show ?thesis by blast
qed

section \<open>Key ids and the key registry\<close>

text \<open>
  C8, as the code has it. The key id of a constructed signer is the override only when
  a private key was given, not empty, and an override was given, not empty; in every
  other case, also when an override comes with no private key, it is the base58
  encoding of the public key.
\<close>

theorem keyId_derivation:
  assumes "TAPSigner_constructor fresh privateKeyBase58 keyId = Inr S"
  shows "getKeyId S =
      (if truthy privateKeyBase58 \<and> truthy keyId then the keyId
       else bs58_encode (kp_publicKey (signer_keyPair S)))"
  using assms
  by (auto simp: TAPSigner_constructor_def truthy_def getKeyId_def generateKeyId_def
      and_then_def split: option.splits if_splits sum.splits)

theorem keyId_derivation_witness:
  "TAPSigner_constructor example_keyPair (Some (bs58_encode (kp_secretKey example_keyPair)))
      (Some ''test-key'') = Inr example_signer
   \<and> getKeyId example_signer = ''test-key''"
proof -
  have ne: "bs58_encode (kp_secretKey example_keyPair) \<noteq> []"
    by (rule bs58_encode_nonempty) (simp add: example_keyPair_def)
  have c: "TAPSigner_constructor example_keyPair
      (Some (bs58_encode (kp_secretKey example_keyPair))) (Some ''test-key'') = Inr example_signer"
    using ne
    by (simp add: TAPSigner_constructor_def truthy_def bs58_roundtrip and_then_def
        nacl_sign_keyPair_fromSecretKey_def example_keyPair_def example_signer_def)
  from keyId_derivation [OF c] ne c show ?thesis by (simp add: truthy_def)
qed

text \<open>
  C8 as stated fails: with no private key the constructor ignores the override.
\<close>

theorem keyId_override_counterexample:
  "TAPSigner_constructor example_keyPair None (Some ''my-key'') =
     Inr \<lparr>signer_keyPair = example_keyPair,
          signer_keyId = bs58_encode (kp_publicKey example_keyPair)\<rparr>
   \<and> getKeyId \<lparr>signer_keyPair = example_keyPair,
          signer_keyId = bs58_encode (kp_publicKey example_keyPair)\<rparr> \<noteq> ''my-key''"
proof -
  have "CHR ''-'' \<notin> set b58chars" by (simp add: b58chars_def)
  then have "CHR ''-'' \<notin> set (bs58_encode (kp_publicKey example_keyPair))"
    using bs58_encode_chars by blast
  then have "bs58_encode (kp_publicKey example_keyPair) \<noteq> ''my-key''" by auto
  then show ?thesis
    by (simp add: TAPSigner_constructor_def truthy_def generateKeyId_def getKeyId_def)
qed

text \<open>
  C7, as the code has it. \<open>ed25519ToJWK\<close> decodes its base58 argument and, whatever
  the number of bytes, returns \<open>kty = OKP\<close>, \<open>crv = Ed25519\<close>, \<open>alg = EdDSA\<close>,
  \<open>use = sig\<close>, \<open>kid\<close> the given key id and \<open>x\<close> the unpadded base64url text of the
  bytes; an argument that is not base58 throws. For the base58 text of any public key
  \<open>x\<close> decodes back to the key's bytes.
\<close>

theorem ed25519ToJWK_mapping:
  "ed25519ToJWK publicKeyBase58 keyId =
     (case bs58_decode publicKeyBase58 of
        Inl err \<Rightarrow> Inl err
      | Inr publicKeyBytes \<Rightarrow>
          Inr \<lparr>jwk_kty = ''OKP'', jwk_kid = keyId, jwk_use = ''sig'', jwk_alg = ''EdDSA'',
               jwk_x = Some (base64url_nopad publicKeyBytes), jwk_n = None, jwk_e = None,
               jwk_crv = Some ''Ed25519''\<rparr>)
   \<and> ed25519ToJWK (bs58_encode publicKey) keyId =
       Inr \<lparr>jwk_kty = ''OKP'', jwk_kid = keyId, jwk_use = ''sig'', jwk_alg = ''EdDSA'',
            jwk_x = Some (base64url_nopad publicKey), jwk_n = None, jwk_e = None,
            jwk_crv = Some ''Ed25519''\<rparr>
   \<and> base64UrlDecode (base64url_nopad publicKey) = Inr publicKey"
  by (simp add: ed25519ToJWK_eq [symmetric] ed25519ToJWK_encoded base64Url_roundtrip)

text \<open>
  C7 as stated fails: a public key of one byte is not rejected.
\<close>

theorem ed25519ToJWK_length_counterexample:
  "bs58_decode ''2'' = Inr [1]
   \<and> ed25519ToJWK ''2'' ''k'' =
       Inr \<lparr>jwk_kty = ''OKP'', jwk_kid = ''k'', jwk_use = ''sig'', jwk_alg = ''EdDSA'',
            jwk_x = Some ''AQ'', jwk_n = None, jwk_e = None, jwk_crv = Some ''Ed25519''\<rparr>"
proof -
  have d: "bs58_decode ''2'' = Inr [1]"
    by (simp add: bs58_decode_def b58chars_def nat_of_base58_def base256_bytes.simps)
  have "base64url_nopad [1] = ''AQ''"
    by (simp add: base64url_nopad_def b64url_chars_def)
  with d show ?thesis by (simp add: ed25519ToJWK_eq)
qed

text \<open>
  C6, as the code has it. \<open>registeredKeys\<close> is a \<open>Map\<close> from key ids to keys.
  \<open>getJWKS\<close> writes the current signing key under its key id and returns the values of
  the map, one key for each registered key id, in the order in which the key ids were
  first inserted: the entries before the current key id, the current key, the entries
  after it. A key id that is already registered keeps its place and its entry is
  overwritten; a key id that was not registered yet comes last. A second call returns
  the same keys. \<open>rotateKey\<close>, when Visa accepts the update, writes the new key under
  its key id in the same way and makes the new signer current; when Visa rejects it, it
  throws and nothing changes. So between two listings a rotation to a key id that is
  neither registered nor the current one keeps every listed key in its place and puts
  the new key, the one most recently active, last; a rotation to the current key id
  puts the new key in the place of the current key, which is not retained.
\<close>

theorem getJWKS_insertion_order:
  fixes result :: 'r
  shows "getJWKS R =
     Inr (map snd (takeWhile (\<lambda>e. fst e \<noteq> getKeyId (reg_tapSigner R)) (registeredKeys R))
            @ current_JWK (reg_tapSigner R)
            # map snd (tl (dropWhile (\<lambda>e. fst e \<noteq> getKeyId (reg_tapSigner R))
                           (registeredKeys R))),
          R\<lparr>registeredKeys :=
              Map_set (getKeyId (reg_tapSigner R)) (current_JWK (reg_tapSigner R))
                (registeredKeys R)\<rparr>)
   \<and> (getKeyId (reg_tapSigner R) \<notin> fst ` set (registeredKeys R) \<longrightarrow>
        getJWKS R =
          Inr (map snd (registeredKeys R) @ [current_JWK (reg_tapSigner R)],
               R\<lparr>registeredKeys :=
                   registeredKeys R
                   @ [(getKeyId (reg_tapSigner R), current_JWK (reg_tapSigner R))]\<rparr>))
   \<and> and_then (getJWKS R) (\<lambda>(keys, R'). getJWKS R') = getJWKS R
   \<and> rotateKey (Inr result) R newSigner =
        Inr (result,
             R\<lparr>registeredKeys :=
                 Map_set (getKeyId newSigner) (current_JWK newSigner) (registeredKeys R),
               reg_tapSigner := newSigner\<rparr>)
   \<and> rotateKey (Inl err) R newSigner = (Inl err :: error + ('r \<times> VisaKeyRegistry))
   \<and> list_rotate_list R newSigner =
        Inr (map snd (Map_set (getKeyId (reg_tapSigner R)) (current_JWK (reg_tapSigner R))
                        (registeredKeys R)),
             map snd (Map_set (getKeyId newSigner) (current_JWK newSigner)
                        (Map_set (getKeyId (reg_tapSigner R)) (current_JWK (reg_tapSigner R))
                           (registeredKeys R))))
   \<and> (getKeyId newSigner \<notin> fst ` set (registeredKeys R)
        \<and> getKeyId newSigner \<noteq> getKeyId (reg_tapSigner R) \<longrightarrow>
        list_rotate_list R newSigner =
          Inr (map snd (Map_set (getKeyId (reg_tapSigner R)) (current_JWK (reg_tapSigner R))
                          (registeredKeys R)),
               map snd (Map_set (getKeyId (reg_tapSigner R)) (current_JWK (reg_tapSigner R))
                          (registeredKeys R))
               @ [current_JWK newSigner]))
   \<and> (getKeyId newSigner = getKeyId (reg_tapSigner R) \<longrightarrow>
        list_rotate_list R newSigner =
          Inr (map snd (takeWhile (\<lambda>e. fst e \<noteq> getKeyId (reg_tapSigner R)) (registeredKeys R))
                 @ current_JWK (reg_tapSigner R)
                 # map snd (tl (dropWhile (\<lambda>e. fst e \<noteq> getKeyId (reg_tapSigner R))
                                  (registeredKeys R))),
               map snd (takeWhile (\<lambda>e. fst e \<noteq> getKeyId (reg_tapSigner R)) (registeredKeys R))
                 @ current_JWK newSigner
                 # map snd (tl (dropWhile (\<lambda>e. fst e \<noteq> getKeyId (reg_tapSigner R))
                                  (registeredKeys R)))))"
proof -
  have a: "getJWKS R =
     Inr (map snd (Map_set (getKeyId (reg_tapSigner R)) (current_JWK (reg_tapSigner R))
            (registeredKeys R)),
          R\<lparr>registeredKeys :=
              Map_set (getKeyId (reg_tapSigner R)) (current_JWK (reg_tapSigner R))
                (registeredKeys R)\<rparr>)" for R
    by (simp add: getJWKS_eq current_JWK_def Map_values_def)
  have b: "map snd (Map_set k v m) =
      map snd (takeWhile (\<lambda>e. fst e \<noteq> k) m) @ v # map snd (tl (dropWhile (\<lambda>e. fst e \<noteq> k) m))"
    for k :: string and v :: JWK and m
    by (subst Map_set_split) simp
  have e1: "getJWKS R =
     Inr (map snd (takeWhile (\<lambda>e. fst e \<noteq> getKeyId (reg_tapSigner R)) (registeredKeys R))
            @ current_JWK (reg_tapSigner R)
            # map snd (tl (dropWhile (\<lambda>e. fst e \<noteq> getKeyId (reg_tapSigner R))
                           (registeredKeys R))),
          R\<lparr>registeredKeys :=
              Map_set (getKeyId (reg_tapSigner R)) (current_JWK (reg_tapSigner R))
                (registeredKeys R)\<rparr>)"
    by (simp only: a b)
  have e2: "getKeyId (reg_tapSigner R) \<notin> fst ` set (registeredKeys R) \<longrightarrow>
        getJWKS R =
          Inr (map snd (registeredKeys R) @ [current_JWK (reg_tapSigner R)],
               R\<lparr>registeredKeys :=
                   registeredKeys R
                   @ [(getKeyId (reg_tapSigner R), current_JWK (reg_tapSigner R))]\<rparr>)"
    by (simp add: a Map_set_new)
  have e3: "and_then (getJWKS R) (\<lambda>(keys, R'). getJWKS R') = getJWKS R"
    by (simp add: a and_then_def Map_set_idem)
  have r: "rotateKey (Inr res) R' newSigner =
        Inr (res,
             R'\<lparr>registeredKeys :=
                 Map_set (getKeyId newSigner) (current_JWK newSigner) (registeredKeys R'),
               reg_tapSigner := newSigner\<rparr>)" for res :: 'a and R'
    by (simp add: rotateKey_eq current_JWK_def)
  have e4: "rotateKey (Inr result) R newSigner =
        Inr (result,
             R\<lparr>registeredKeys :=
                 Map_set (getKeyId newSigner) (current_JWK newSigner) (registeredKeys R),
               reg_tapSigner := newSigner\<rparr>)"
    by (rule r)
  have e5: "rotateKey (Inl err) R newSigner = (Inl err :: error + ('r \<times> VisaKeyRegistry))"
    by (simp add: rotateKey_def getPublicKey_def ed25519ToJWK_encoded and_then_def Let_def)
  let ?kc = "getKeyId (reg_tapSigner R)" and ?Jc = "current_JWK (reg_tapSigner R)"
  let ?kn = "getKeyId newSigner" and ?Jn = "current_JWK newSigner"
  have e6: "list_rotate_list R newSigner =
        Inr (map snd (Map_set ?kc ?Jc (registeredKeys R)),
             map snd (Map_set ?kn ?Jn (Map_set ?kc ?Jc (registeredKeys R))))"
    by (simp add: list_rotate_list_def a r and_then_def Map_set_idem)
  have e7: "?kn \<notin> fst ` set (registeredKeys R) \<and> ?kn \<noteq> ?kc \<longrightarrow>
        list_rotate_list R newSigner =
          Inr (map snd (Map_set ?kc ?Jc (registeredKeys R)),
               map snd (Map_set ?kc ?Jc (registeredKeys R)) @ [?Jn])"
  proof
    assume h: "?kn \<notin> fst ` set (registeredKeys R) \<and> ?kn \<noteq> ?kc"
    then have "?kn \<notin> fst ` set (Map_set ?kc ?Jc (registeredKeys R))"
      by (simp only: Map_set_keys) blast
    then have "Map_set ?kn ?Jn (Map_set ?kc ?Jc (registeredKeys R))
        = Map_set ?kc ?Jc (registeredKeys R) @ [(?kn, ?Jn)]"
      by (rule Map_set_new)
    then show "list_rotate_list R newSigner =
          Inr (map snd (Map_set ?kc ?Jc (registeredKeys R)),
               map snd (Map_set ?kc ?Jc (registeredKeys R)) @ [?Jn])"
      by (simp only: e6) simp
  qed
  have e8: "?kn = ?kc \<longrightarrow>
        list_rotate_list R newSigner =
          Inr (map snd (takeWhile (\<lambda>e. fst e \<noteq> ?kc) (registeredKeys R))
                 @ ?Jc # map snd (tl (dropWhile (\<lambda>e. fst e \<noteq> ?kc) (registeredKeys R))),
               map snd (takeWhile (\<lambda>e. fst e \<noteq> ?kc) (registeredKeys R))
                 @ ?Jn # map snd (tl (dropWhile (\<lambda>e. fst e \<noteq> ?kc) (registeredKeys R))))"
  proof
    assume h: "?kn = ?kc"
    show "list_rotate_list R newSigner =
          Inr (map snd (takeWhile (\<lambda>e. fst e \<noteq> ?kc) (registeredKeys R))
                 @ ?Jc # map snd (tl (dropWhile (\<lambda>e. fst e \<noteq> ?kc) (registeredKeys R))),
               map snd (takeWhile (\<lambda>e. fst e \<noteq> ?kc) (registeredKeys R))
                 @ ?Jn # map snd (tl (dropWhile (\<lambda>e. fst e \<noteq> ?kc) (registeredKeys R))))"
      by (simp only: e6 h Map_set_overwrite b)
  qed
  show ?thesis
    by (intro conjI) (rule e1, rule e2, rule e3, rule e4, rule e5, rule e6, rule e7, rule e8)
qed

theorem getJWKS_insertion_order_witness:
  "getKeyId (reg_tapSigner
       \<lparr>reg_tapSigner = example_new_signer,
        registeredKeys = [(''test-key'', current_JWK example_signer)]\<rparr>)
      \<notin> fst ` set (registeredKeys
           \<lparr>reg_tapSigner = example_new_signer,
            registeredKeys = [(''test-key'', current_JWK example_signer)]\<rparr>)
   \<and> getJWKS \<lparr>reg_tapSigner = example_new_signer,
               registeredKeys = [(''test-key'', current_JWK example_signer)]\<rparr> =
       Inr ([current_JWK example_signer, current_JWK example_new_signer],
            \<lparr>reg_tapSigner = example_new_signer,
             registeredKeys = [(''test-key'', current_JWK example_signer),
                               (''new-key'', current_JWK example_new_signer)]\<rparr>)
   \<and> getKeyId example_new_signer
      \<notin> fst ` set (registeredKeys
           \<lparr>reg_tapSigner = example_signer,
            registeredKeys = [(''test-key'', current_JWK example_signer)]\<rparr>)
   \<and> getKeyId example_new_signer
      \<noteq> getKeyId (reg_tapSigner
           \<lparr>reg_tapSigner = example_signer,
            registeredKeys = [(''test-key'', current_JWK example_signer)]\<rparr>)
   \<and> list_rotate_list
        \<lparr>reg_tapSigner = example_signer,
         registeredKeys = [(''test-key'', current_JWK example_signer)]\<rparr> example_new_signer =
       Inr ([current_JWK example_signer],
            [current_JWK example_signer, current_JWK example_new_signer])
   \<and> getKeyId same_id_signer
      = getKeyId (reg_tapSigner
           \<lparr>reg_tapSigner = example_signer,
            registeredKeys = [(''test-key'', current_JWK example_signer)]\<rparr>)
   \<and> list_rotate_list
        \<lparr>reg_tapSigner = example_signer,
         registeredKeys = [(''test-key'', current_JWK example_signer)]\<rparr> same_id_signer =
       Inr ([current_JWK example_signer], [current_JWK same_id_signer])
   \<and> current_JWK same_id_signer \<noteq> current_JWK example_signer"
proof -
  let ?R0 = "\<lparr>reg_tapSigner = example_new_signer,
        registeredKeys = [(''test-key'', current_JWK example_signer)]\<rparr>"
  let ?R1 = "\<lparr>reg_tapSigner = example_signer,
        registeredKeys = [(''test-key'', current_JWK example_signer)]\<rparr>"
  have h0: "getKeyId (reg_tapSigner ?R0) \<notin> fst ` set (registeredKeys ?R0)"
    by (simp add: getKeyId_def example_new_signer_def)
  have h1: "getKeyId example_new_signer \<notin> fst ` set (registeredKeys ?R1)
      \<and> getKeyId example_new_signer \<noteq> getKeyId (reg_tapSigner ?R1)"
    by (simp add: getKeyId_def example_new_signer_def example_signer_def)
  have h2: "getKeyId same_id_signer = getKeyId (reg_tapSigner ?R1)"
    by (simp add: getKeyId_def same_id_signer_def example_signer_def)
  have k: "getKeyId example_signer = ''test-key''" "getKeyId example_new_signer = ''new-key''"
    by (simp_all add: getKeyId_def example_new_signer_def example_signer_def)
  note t0 = getJWKS_insertion_order [of ?R0 "()" example_signer VisaRequestFailed]
  note t1 = getJWKS_insertion_order [of ?R1 "()" example_new_signer VisaRequestFailed]
  note t2 = getJWKS_insertion_order [of ?R1 "()" same_id_signer VisaRequestFailed]
  have w0: "getJWKS ?R0 =
       Inr ([current_JWK example_signer, current_JWK example_new_signer],
            \<lparr>reg_tapSigner = example_new_signer,
             registeredKeys = [(''test-key'', current_JWK example_signer),
                               (''new-key'', current_JWK example_new_signer)]\<rparr>)"
    using t0 [THEN conjunct2, THEN conjunct1, THEN mp, OF h0] by (simp add: k)
  have w1: "list_rotate_list ?R1 example_new_signer =
       Inr ([current_JWK example_signer],
            [current_JWK example_signer, current_JWK example_new_signer])"
    using t1 [THEN conjunct2, THEN conjunct2, THEN conjunct2, THEN conjunct2, THEN conjunct2,
        THEN conjunct2, THEN conjunct1, THEN mp, OF h1]
    by (simp add: k)
  have w2: "list_rotate_list ?R1 same_id_signer =
       Inr ([current_JWK example_signer], [current_JWK same_id_signer])"
    using t2 [THEN conjunct2, THEN conjunct2, THEN conjunct2, THEN conjunct2, THEN conjunct2,
        THEN conjunct2, THEN conjunct2, THEN mp, OF h2]
    by (simp add: k)
  have ne: "current_JWK same_id_signer \<noteq> current_JWK example_signer"
  proof
    assume "current_JWK same_id_signer = current_JWK example_signer"
    then have "base64UrlDecode (base64url_nopad (replicate 32 5))
        = base64UrlDecode (base64url_nopad (replicate 32 9))"
      by (simp add: current_JWK_def same_id_signer_def example_signer_def example_keyPair_def)
    then show False by (simp only: base64Url_roundtrip) simp
  qed
  from h0 w0 h1 w1 h2 w2 ne show ?thesis by blast
qed

text \<open>
  C6 as stated fails: after a rotation the current signing key, the one most recently
  active, is the last key of the list and the old key the first.
\<close>

theorem getJWKS_order_counterexample:
  "rotate_and_list example_signer example_new_signer =
     Inr [current_JWK example_signer, current_JWK example_new_signer]
   \<and> jwk_kid (current_JWK example_signer) = ''test-key''
   \<and> jwk_kid (current_JWK example_new_signer) = ''new-key''"
  by (simp add: rotate_and_list_def getJWKS_eq rotateKey_eq and_then_def
      VisaKeyRegistry_constructor_def Map_values_def current_JWK_def getKeyId_def
      example_signer_def example_new_signer_def)

end
